theory Spec2Isabelle
  imports Main "HOL-Library.AList"
begin

section \<open>Python values\<close>

text \<open>
  The values that \<^verbatim>\<open>json.loads\<close> and \<^verbatim>\<open>response.json()\<close> produce. A Python \<^verbatim>\<open>str\<close> is a list
  of code points below 256, one \<^typ>\<open>char\<close> each. A \<^verbatim>\<open>float\<close> is kept as its \<^verbatim>\<open>repr\<close>
  (the program never computes with one). A \<^verbatim>\<open>dict\<close> is an association list in insertion
  order; Python's \<^verbatim>\<open>None\<close> is \<open>JNull\<close>.
\<close>

datatype json =
    JNull
  | JBool bool
  | JInt int
  | JFloat string
  | JStr string
  | JList "json list"
  | JDict "(string \<times> json) list"

text \<open>Truth value testing (\<^verbatim>\<open>if not x\<close>, \<^verbatim>\<open>x or y\<close>).\<close>

fun py_truthy :: "json \<Rightarrow> bool" where
  "py_truthy JNull = False"
| "py_truthy (JBool b) = b"
| "py_truthy (JInt i) = (i \<noteq> 0)"
| "py_truthy (JFloat r) = (r \<noteq> ''0.0'' \<and> r \<noteq> ''-0.0'')"
| "py_truthy (JStr s) = (s \<noteq> [])"
| "py_truthy (JList xs) = (xs \<noteq> [])"
| "py_truthy (JDict kvs) = (kvs \<noteq> [])"

text \<open>\<^verbatim>\<open>x or y\<close>\<close>

definition py_or :: "json \<Rightarrow> json \<Rightarrow> json" where
  "py_or x y = (if py_truthy x then x else y)"

text \<open>\<^verbatim>\<open>d.get(k)\<close> and \<^verbatim>\<open>d.get(k, default)\<close> on a dict.\<close>

definition dict_get :: "(string \<times> json) list \<Rightarrow> string \<Rightarrow> json" where
  "dict_get d k = (case map_of d k of None \<Rightarrow> JNull | Some v \<Rightarrow> v)"

definition dict_get_default :: "(string \<times> json) list \<Rightarrow> string \<Rightarrow> json \<Rightarrow> json" where
  "dict_get_default d k dflt = (case map_of d k of None \<Rightarrow> dflt | Some v \<Rightarrow> v)"

text \<open>Decimal digits of an integer, as \<^verbatim>\<open>str(n)\<close> and an f-string print them.\<close>

fun show_nat :: "nat \<Rightarrow> string" where
  "show_nat n =
     (if n < 10 then [''0123456789'' ! n]
      else show_nat (n div 10) @ [''0123456789'' ! (n mod 10)])"

declare show_nat.simps [simp del]

definition show_int :: "int \<Rightarrow> string" where
  "show_int i = (if i < 0 then CHR ''-'' # show_nat (nat (- i)) else show_nat (nat i))"

text \<open>\<^verbatim>\<open>sep.join(parts)\<close>\<close>

fun py_join :: "string \<Rightarrow> string list \<Rightarrow> string" where
  "py_join sep [] = []"
| "py_join sep [x] = x"
| "py_join sep (x # y # ys) = x @ sep @ py_join sep (y # ys)"

definition hex_digit :: "nat \<Rightarrow> char" where
  "hex_digit n = ''0123456789abcdef'' ! n"

text \<open>
  \<^verbatim>\<open>json.dumps(value, ensure_ascii=...)\<close> with the default separators. The quote, the
  backslash and the control characters are always escaped; with \<^verbatim>\<open>ensure_ascii\<close> so is
  every character outside the printable ASCII range.
\<close>

definition json_escape_char :: "bool \<Rightarrow> char \<Rightarrow> string" where
  "json_escape_char ensure_ascii c =
     (if c = CHR 0x22 then [CHR 0x5C, CHR 0x22]
      else if c = CHR 0x5C then [CHR 0x5C, CHR 0x5C]
      else if c = CHR 0x0A then [CHR 0x5C, CHR ''n'']
      else if c = CHR 0x0D then [CHR 0x5C, CHR ''r'']
      else if c = CHR 0x09 then [CHR 0x5C, CHR ''t'']
      else if c = CHR 0x08 then [CHR 0x5C, CHR ''b'']
      else if c = CHR 0x0C then [CHR 0x5C, CHR ''f'']
      else if (of_char c :: nat) < 0x20 \<or> (ensure_ascii \<and> (of_char c :: nat) > 0x7E) then
        [CHR 0x5C, CHR ''u'', CHR ''0'', CHR ''0'',
         hex_digit ((of_char c :: nat) div 16), hex_digit ((of_char c :: nat) mod 16)]
      else [c])"

definition json_dumps_str :: "bool \<Rightarrow> string \<Rightarrow> string" where
  "json_dumps_str ensure_ascii s =
     CHR 0x22 # concat (map (json_escape_char ensure_ascii) s) @ [CHR 0x22]"

fun json_dumps :: "bool \<Rightarrow> json \<Rightarrow> string" where
  "json_dumps a JNull = ''null''"
| "json_dumps a (JBool b) = (if b then ''true'' else ''false'')"
| "json_dumps a (JInt i) = show_int i"
| "json_dumps a (JFloat r) =
     (if r = ''nan'' then ''NaN'' else if r = ''inf'' then ''Infinity''
      else if r = ''-inf'' then ''-Infinity'' else r)"
| "json_dumps a (JStr s) = json_dumps_str a s"
| "json_dumps a (JList xs) = ''['' @ py_join '', '' (map (json_dumps a) xs) @ '']''"
| "json_dumps a (JDict kvs) =
     ''{'' @ py_join '', '' (map (\<lambda>(k, v). json_dumps_str a k @ '': '' @ json_dumps a v) kvs)
       @ ''}''"

subsection \<open>Strings\<close>

text \<open>\<^verbatim>\<open>str.isspace\<close> on the code points below 256, and \<^verbatim>\<open>str.strip()\<close>.\<close>

definition py_isspace :: "char \<Rightarrow> bool" where
  "py_isspace c =
     (let n = (of_char c :: nat)
      in (9 \<le> n \<and> n \<le> 13) \<or> (28 \<le> n \<and> n \<le> 32) \<or> n = 0x85 \<or> n = 0xA0)"

definition py_strip :: "string \<Rightarrow> string" where
  "py_strip s = rev (dropWhile py_isspace (rev (dropWhile py_isspace s)))"

text \<open>\<^verbatim>\<open>str.lower()\<close> on the code points below 256.\<close>

definition py_lower_char :: "char \<Rightarrow> char" where
  "py_lower_char c =
     (let n = (of_char c :: nat)
      in if (0x41 \<le> n \<and> n \<le> 0x5A) \<or> (0xC0 \<le> n \<and> n \<le> 0xDE \<and> n \<noteq> 0xD7)
         then char_of (n + 0x20) else c)"

definition py_lower :: "string \<Rightarrow> string" where
  "py_lower s = map py_lower_char s"

text \<open>\<^verbatim>\<open>s.split(sep)\<close> for a separator of one character.\<close>

fun split_on :: "char \<Rightarrow> string \<Rightarrow> string list" where
  "split_on sep [] = [[]]"
| "split_on sep (c # cs) =
     (if c = sep then [] # split_on sep cs
      else (case split_on sep cs of p # ps \<Rightarrow> (c # p) # ps | [] \<Rightarrow> [[c]]))"

text \<open>
  \<^verbatim>\<open>repr\<close> of a string: single quotes unless the string has a single quote and no double
  quote; the quote in use, the backslash and the characters that are not printable are
  escaped.
\<close>

definition py_repr_char :: "char \<Rightarrow> char \<Rightarrow> string" where
  "py_repr_char quote c =
     (let n = (of_char c :: nat)
      in if c = quote \<or> c = CHR 0x5C then [CHR 0x5C, c]
         else if c = CHR 0x09 then [CHR 0x5C, CHR ''t'']
         else if c = CHR 0x0A then [CHR 0x5C, CHR ''n'']
         else if c = CHR 0x0D then [CHR 0x5C, CHR ''r'']
         else if n < 0x20 \<or> (0x7F \<le> n \<and> n \<le> 0xA0) \<or> n = 0xAD then
           [CHR 0x5C, CHR ''x'', hex_digit (n div 16), hex_digit (n mod 16)]
         else [c])"

definition py_repr_str :: "string \<Rightarrow> string" where
  "py_repr_str s =
     (let quote = (if CHR 0x27 \<in> set s \<and> CHR 0x22 \<notin> set s then CHR 0x22 else CHR 0x27)
      in quote # concat (map (py_repr_char quote) s) @ [quote])"

fun py_repr :: "json \<Rightarrow> string" where
  "py_repr JNull = ''None''"
| "py_repr (JBool b) = (if b then ''True'' else ''False'')"
| "py_repr (JInt i) = show_int i"
| "py_repr (JFloat r) = r"
| "py_repr (JStr s) = py_repr_str s"
| "py_repr (JList xs) = ''['' @ py_join '', '' (map py_repr xs) @ '']''"
| "py_repr (JDict kvs) =
     ''{'' @ py_join '', '' (map (\<lambda>(k, v). py_repr_str k @ '': '' @ py_repr v) kvs) @ ''}''"

text \<open>\<^verbatim>\<open>str(x)\<close>: a string is itself, every other value prints as its \<^verbatim>\<open>repr\<close>.\<close>

definition py_str :: "json \<Rightarrow> string" where
  "py_str v = (case v of JStr s \<Rightarrow> s | _ \<Rightarrow> py_repr v)"

section \<open>The API client (netbox_client.py)\<close>

text \<open>
  Names are those of the source; the leading underscore of a private name is dropped
  (\<^verbatim>\<open>_request\<close> is \<open>request\<close>, \<^verbatim>\<open>_parse_json\<close> is \<open>parse_json\<close>), and the options of the command
  are prefixed with \<open>opt_\<close>. An exception is a value of the type \<open>error\<close>: a function that
  can raise returns \<open>Inl\<close> of it. \<open>TransportError\<close> stands for what the transport raises.
\<close>

datatype error =
    NetBoxAPIError string "int option" json
  | ValueError string
  | TypeError
  | AttributeError
  | KeyError
  | TransportError

text \<open>
  Iteration over a value (\<^verbatim>\<open>for item in x\<close>): the elements of a list, the keys of a dict,
  the characters of a string; anything else is not iterable.
\<close>

fun py_iter :: "json \<Rightarrow> error + json list" where
  "py_iter (JList xs) = Inr xs"
| "py_iter (JDict kvs) = Inr (map (\<lambda>kv. JStr (fst kv)) kvs)"
| "py_iter (JStr s) = Inr (map (\<lambda>c. JStr [c]) s)"
| "py_iter _ = Inl TypeError"

text \<open>
  \<^verbatim>\<open>NetBoxAPIError.__init__(message, status=None, payload=None)\<close>: the stored payload is
  \<^verbatim>\<open>payload or {}\<close>.
\<close>

definition NetBoxAPIError_init :: "string \<Rightarrow> int option \<Rightarrow> json \<Rightarrow> error" where
  "NetBoxAPIError_init message status payload =
     NetBoxAPIError message status (py_or payload (JDict []))"

fun error_status :: "error \<Rightarrow> int option" where
  "error_status (NetBoxAPIError m s p) = s"
| "error_status _ = None"

fun error_payload :: "error \<Rightarrow> json option" where
  "error_payload (NetBoxAPIError m s p) = Some p"
| "error_payload _ = None"

datatype verify_mode = VerifyBool bool | VerifyPath string

record NetBoxClient =
  base_url :: string
  token :: "string option"
  verify :: verify_mode
  timeout :: int

text \<open>\<^verbatim>\<open>__post_init__\<close>: an empty base URL is refused, a missing final slash is added.\<close>

definition post_init :: "NetBoxClient \<Rightarrow> error + NetBoxClient" where
  "post_init c =
     (if base_url c = [] then Inl (ValueError ''NetBox base URL must be provided'')
      else if last (base_url c) \<noteq> CHR ''/'' then Inr (c\<lparr>base_url := base_url c @ ''/''\<rparr>)
      else Inr c)"

text \<open>
  The transport. \<^verbatim>\<open>urljoin(base, ref)\<close> is library code, so a URL is kept as the pair of
  its arguments. A response is what the program reads of it: the status code, the body
  text, and the result of \<^verbatim>\<open>response.json()\<close> (\<open>None\<close> when it raises \<^verbatim>\<open>ValueError\<close>).
  \<^verbatim>\<open>response.ok\<close> is false exactly for the statuses 400 to 599.
\<close>

datatype url = UrlJoin string string

record http_request =
  req_method :: string
  req_url :: url
  req_params :: "(string \<times> string) list option"
  req_timeout :: int
  req_verify :: verify_mode

record response =
  status_code :: int
  body_text :: string
  json_body :: "json option"

definition ok :: "response \<Rightarrow> bool" where
  "ok r = (\<not> (400 \<le> status_code r \<and> status_code r < 600))"

text \<open>
  The server is a script of responses, handed out one per request; every request is logged.
  A request with no response left fails in the transport.
\<close>

record world =
  queue :: "response list"
  log :: "http_request list"

definition session_request :: "http_request \<Rightarrow> world \<Rightarrow> (error + response) \<times> world" where
  "session_request req w =
     (case queue w of
        [] \<Rightarrow> (Inl TransportError, w\<lparr>log := log w @ [req]\<rparr>)
      | r # rs \<Rightarrow> (Inr r, w\<lparr>queue := rs, log := log w @ [req]\<rparr>))"

text \<open>\<^verbatim>\<open>path.lstrip('/')\<close>\<close>

definition lstrip_slash :: "string \<Rightarrow> string" where
  "lstrip_slash s = dropWhile (\<lambda>c. c = CHR ''/'') s"

definition build_request ::
  "NetBoxClient \<Rightarrow> string \<Rightarrow> string \<Rightarrow> (string \<times> string) list option \<Rightarrow> http_request" where
  "build_request c m path ps =
     \<lparr>req_method = m, req_url = UrlJoin (base_url c) (lstrip_slash path), req_params = ps,
      req_timeout = timeout c, req_verify = verify c\<rparr>"

text \<open>
  \<^verbatim>\<open>NetBoxClient._request(method, path, params)\<close>. The path is a Python value: the pagination
  loop passes whatever the server put under \<^verbatim>\<open>next\<close>, and \<^verbatim>\<open>lstrip\<close> exists on a \<^verbatim>\<open>str\<close> only.
\<close>

definition request ::
  "NetBoxClient \<Rightarrow> string \<Rightarrow> json \<Rightarrow> (string \<times> string) list option \<Rightarrow> world
     \<Rightarrow> (error + response) \<times> world" where
  "request c m path ps w =
     (case path of
        JStr p \<Rightarrow>
          (case session_request (build_request c m p ps) w of
             (Inl e, w') \<Rightarrow> (Inl e, w')
           | (Inr resp, w') \<Rightarrow>
               if \<not> ok resp then
                 (Inl (NetBoxAPIError_init
                         (''NetBox API request failed with status '' @ show_int (status_code resp))
                         (Some (status_code resp))
                         (case json_body resp of Some payload \<Rightarrow> payload | None \<Rightarrow> JNull)),
                  w')
               else (Inr resp, w'))
      | _ \<Rightarrow> (Inl AttributeError, w))"

subsection \<open>iter_resource, a generator\<close>

text \<open>
  The generator object of \<^verbatim>\<open>iter_resource\<close> is the place where its body is suspended:
  at the head of the \<^verbatim>\<open>while\<close> loop with \<^verbatim>\<open>next_url\<close> and \<^verbatim>\<open>current_params\<close>, inside the
  \<^verbatim>\<open>for\<close> over an envelope's results (the items left, and \<^verbatim>\<open>data\<close>), inside the \<^verbatim>\<open>for\<close> over
  a bare list, or after the \<^verbatim>\<open>yield\<close> of a single object. Resuming it runs the body to the
  next \<^verbatim>\<open>yield\<close>, to its end, or to an exception.
\<close>

datatype gen =
    LoopHead json "(string \<times> string) list option"
  | InResults "json list" json
  | InList "json list"
  | AfterSingle

datatype resume = Yield json gen | StopIteration | Raise error

definition is_dict :: "json \<Rightarrow> bool" where
  "is_dict data = (case data of JDict d \<Rightarrow> True | _ \<Rightarrow> False)"

definition is_list :: "json \<Rightarrow> bool" where
  "is_list data = (case data of JList xs \<Rightarrow> True | _ \<Rightarrow> False)"

definition the_dict :: "json \<Rightarrow> (string \<times> json) list" where
  "the_dict data = (case data of JDict d \<Rightarrow> d | _ \<Rightarrow> [])"

definition the_list :: "json \<Rightarrow> json list" where
  "the_list data = (case data of JList xs \<Rightarrow> xs | _ \<Rightarrow> [])"

text \<open>\<^verbatim>\<open>isinstance(data, dict) and {"results", "next"}.issubset(data.keys())\<close>\<close>

definition is_envelope :: "json \<Rightarrow> bool" where
  "is_envelope data =
     (is_dict data \<and> {''results'', ''next''} \<subseteq> set (map fst (the_dict data)))"

lemma session_request_queue:
  "session_request req w = (Inr resp, w') \<Longrightarrow> length (queue w') < length (queue w)"
  by (auto simp: session_request_def split: list.splits)

lemma request_queue:
  "request c m path ps w = (Inr resp, w') \<Longrightarrow> length (queue w') < length (queue w)"
  by (auto simp: request_def split: json.splits prod.splits sum.splits if_splits
      dest: session_request_queue)

function gen_next :: "NetBoxClient \<Rightarrow> string \<Rightarrow> gen \<Rightarrow> world \<Rightarrow> resume \<times> world" where
  "gen_next c resource (LoopHead next_url current_params) w =
     (case request c ''GET'' (py_or next_url (JStr resource))
             (if \<not> py_truthy next_url then current_params else None) w of
        (Inl e, w') \<Rightarrow> (Raise e, w')
      | (Inr resp, w') \<Rightarrow>
          (case json_body resp of
             None \<Rightarrow>
               (Raise (NetBoxAPIError_init ''NetBox API returned non JSON response'' None
                         (JDict [(''raw'', JStr (body_text resp))])), w')
           | Some data \<Rightarrow>
               if is_envelope data then
                 (case py_iter (dict_get_default (the_dict data) ''results'' (JList [])) of
                    Inl e \<Rightarrow> (Raise e, w')
                  | Inr items \<Rightarrow> gen_next c resource (InResults items data) w')
               else if is_list data then gen_next c resource (InList (the_list data)) w'
               else if is_dict data then (Yield data AfterSingle, w')
               else
                 (Raise (NetBoxAPIError_init ''Unexpected response structure from NetBox'' None
                           (JDict [(''raw'', JStr (json_dumps True data))])), w')))"
| "gen_next c resource (InResults (item # items) data) w = (Yield item (InResults items data), w)"
| "gen_next c resource (InResults [] data) w =
     (let next_url = dict_get (the_dict data) ''next''
      in if \<not> py_truthy next_url then (StopIteration, w)
         else gen_next c resource (LoopHead next_url None) w)"
| "gen_next c resource (InList (item # items)) w = (Yield item (InList items), w)"
| "gen_next c resource (InList []) w = (StopIteration, w)"
| "gen_next c resource AfterSingle w = (StopIteration, w)"
  by pat_completeness auto
termination
  by (relation "measures [\<lambda>(c, r, g, w). length (queue w),
                          \<lambda>(c, r, g, w). (case g of InResults items data \<Rightarrow> 1 | _ \<Rightarrow> 0)]")
     (auto dest: request_queue [OF sym])

text \<open>
  \<^verbatim>\<open>iter_resource(resource, params)\<close> creates the generator, suspended before its first
  statement: \<^verbatim>\<open>next_url = None\<close>, \<^verbatim>\<open>current_params = dict(params or {})\<close>.
\<close>

definition iter_resource :: "string \<Rightarrow> (string \<times> string) list option \<Rightarrow> gen" where
  "iter_resource resource ps =
     LoopHead JNull (Some (case ps of None \<Rightarrow> [] | Some d \<Rightarrow> d))"

text \<open>\<^verbatim>\<open>get_first\<close>: the \<^verbatim>\<open>for\<close> loop resumes the generator once and returns.\<close>

definition get_first ::
  "NetBoxClient \<Rightarrow> string \<Rightarrow> (string \<times> string) list option \<Rightarrow> world \<Rightarrow> (error + json) \<times> world"
  where
  "get_first c resource ps w =
     (case gen_next c resource (iter_resource resource ps) w of
        (Yield item g, w') \<Rightarrow> (Inr item, w')
      | (StopIteration, w') \<Rightarrow> (Inr JNull, w')
      | (Raise e, w') \<Rightarrow> (Inl e, w'))"

text \<open>\<^verbatim>\<open>get_by_id(resource, object_id)\<close>, with \<^verbatim>\<open>object_id\<close> a \<^verbatim>\<open>str\<close> or an \<^verbatim>\<open>int\<close>.\<close>

datatype object_id = IdStr string | IdInt int

fun format_id :: "object_id \<Rightarrow> string" where
  "format_id (IdStr s) = s"
| "format_id (IdInt i) = show_int i"

definition rstrip_slash :: "string \<Rightarrow> string" where
  "rstrip_slash s = rev (dropWhile (\<lambda>c. c = CHR ''/'') (rev s))"

definition get_by_id ::
  "NetBoxClient \<Rightarrow> string \<Rightarrow> object_id \<Rightarrow> world \<Rightarrow> (error + json) \<times> world" where
  "get_by_id c resource oid w =
     (case request c ''GET'' (JStr (rstrip_slash resource @ ''/'' @ format_id oid @ ''/'')) None w of
        (Inl (NetBoxAPIError m status payload), w') \<Rightarrow>
          if status = Some 404 then (Inr JNull, w')
          else (Inl (NetBoxAPIError m status payload), w')
      | (Inl e, w') \<Rightarrow> (Inl e, w')
      | (Inr resp, w') \<Rightarrow>
          (case json_body resp of
             Some data \<Rightarrow> (Inr data, w')
           | None \<Rightarrow>
               (Inl (NetBoxAPIError_init ''NetBox API returned non JSON response'' None
                       (JDict [(''raw'', JStr (body_text resp))])), w')))"

text \<open>
  A \<^verbatim>\<open>for item in iterator\<close> loop that runs to the end resumes the generator until it stops
  or raises: the items yielded, in order, and the exception that ended the iteration, if any.
  Every resumption that yields either consumes a response or moves on in the page at hand.
\<close>

fun gen_size :: "gen \<Rightarrow> nat" where
  "gen_size (InResults items data) = length items"
| "gen_size (InList items) = length items"
| "gen_size _ = 0"

lemma gen_next_yield_decreases:
  "gen_next c r g w = (Yield x g', w') \<Longrightarrow>
     length (queue w') < length (queue w)
     \<or> (length (queue w') = length (queue w) \<and> gen_size g' < gen_size g)"
proof (induction c r g w rule: gen_next.induct)
  case (1 c resource next_url current_params w)
  obtain res w1 where req:
    "request c ''GET'' (py_or next_url (JStr resource))
       (if \<not> py_truthy next_url then current_params else None) w = (res, w1)"
    by force
  show ?case
  proof (cases res)
    case (Inl e)
    with req "1.prems" show ?thesis by simp
  next
    case (Inr resp)
    with req have less: "length (queue w1) < length (queue w)"
      by (auto dest: request_queue)
    show ?thesis
    proof (cases "json_body resp")
      case None
      with req Inr "1.prems" show ?thesis by simp
    next
      case (Some data)
      show ?thesis
      proof (cases "is_envelope data")
        case True
        show ?thesis
        proof (cases "py_iter (dict_get_default (the_dict data) ''results'' (JList []))")
          case (Inl e)
          with req Inr Some True "1.prems" show ?thesis by simp
        next
          case inr: (Inr items)
          from req Inr Some True inr "1.prems"
          have "gen_next c resource (InResults items data) w1 = (Yield x g', w')" by simp
          from "1.IH"(1) [OF req [symmetric] Inr Some True inr this] less
          show ?thesis by auto
        qed
      next
        case False
        show ?thesis
        proof (cases "is_list data")
          case True
          from req Inr Some False True "1.prems"
          have "gen_next c resource (InList (the_list data)) w1 = (Yield x g', w')" by simp
          from "1.IH"(2) [OF req [symmetric] Inr Some False True this] less
          show ?thesis by auto
        next
          case nl: False
          with req Inr Some False "1.prems" less show ?thesis
            by (auto split: if_splits)
        qed
      qed
    qed
  qed
next
  case (3 c resource data w)
  then show ?case by (auto simp: Let_def split: if_splits)
qed auto

function drain ::
  "NetBoxClient \<Rightarrow> string \<Rightarrow> gen \<Rightarrow> world \<Rightarrow> (json list \<times> error option) \<times> world" where
  "drain c resource g w =
     (case gen_next c resource g w of
        (Yield item g', w') \<Rightarrow>
          (case drain c resource g' w' of ((items, err), w'') \<Rightarrow> ((item # items, err), w''))
      | (StopIteration, w') \<Rightarrow> (([], None), w')
      | (Raise e, w') \<Rightarrow> (([], Some e), w'))"
  by pat_completeness auto
termination
  by (relation "measures [\<lambda>(c, r, g, w). length (queue w), \<lambda>(c, r, g, w). gen_size g]")
     (auto dest: gen_next_yield_decreases [OF sym])

declare drain.simps [simp del]

text \<open>
  Vocabulary for the claims about pagination. A page is a successful response whose body is
  an envelope with a list under \<^verbatim>\<open>results\<close>; a cursor is a non-empty string under \<^verbatim>\<open>next\<close>. A
  skipped page is a successful envelope that yields nothing and continues.
\<close>

definition the_str :: "json \<Rightarrow> string" where
  "the_str v = (case v of JStr s \<Rightarrow> s | _ \<Rightarrow> [])"

definition is_page :: "response \<Rightarrow> bool" where
  "is_page r =
     (ok r \<and>
      (case json_body r of
         Some data \<Rightarrow> is_envelope data \<and> is_list (dict_get (the_dict data) ''results'')
       | None \<Rightarrow> False))"

definition page_results :: "response \<Rightarrow> json list" where
  "page_results r =
     (case json_body r of
        Some data \<Rightarrow> the_list (dict_get (the_dict data) ''results'')
      | None \<Rightarrow> [])"

definition page_next :: "response \<Rightarrow> json" where
  "page_next r =
     (case json_body r of Some data \<Rightarrow> dict_get (the_dict data) ''next'' | None \<Rightarrow> JNull)"

definition is_cursor :: "json \<Rightarrow> bool" where
  "is_cursor v = (case v of JStr s \<Rightarrow> s \<noteq> [] | _ \<Rightarrow> False)"

definition skipped_page :: "response \<Rightarrow> bool" where
  "skipped_page r =
     (ok r \<and>
      (case json_body r of
         Some data \<Rightarrow>
           is_envelope data
           \<and> py_iter (dict_get_default (the_dict data) ''results'' (JList [])) = Inr []
           \<and> py_truthy (dict_get (the_dict data) ''next'')
       | None \<Rightarrow> False))"

section \<open>Decoding JSON text\<close>

text \<open>
  \<^verbatim>\<open>json.loads(s)\<close> is library code. As \<^verbatim>\<open>JSONDecoder.decode\<close> does, it skips the JSON
  whitespace, has the scanner read one value from a text that is not empty, and accepts
  nothing but whitespace after the value. The scanner is a parameter \<open>scan\<close>: from a text
  it gives the value it reads and the text left, or \<open>None\<close> where it raises. \<open>None\<close> from
  \<open>json_loads\<close> is \<^verbatim>\<open>JSONDecodeError\<close>.
\<close>

definition json_ws :: "char \<Rightarrow> bool" where
  "json_ws c = (c = CHR '' '' \<or> c = CHR 0x09 \<or> c = CHR 0x0A \<or> c = CHR 0x0D)"

definition json_loads :: "(string \<Rightarrow> (json \<times> string) option) \<Rightarrow> string \<Rightarrow> json option" where
  "json_loads scan s =
     (let s1 = dropWhile json_ws s
      in if s1 = [] then None
         else (case scan s1 of
                 None \<Rightarrow> None
               | Some (obj, rest) \<Rightarrow> if dropWhile json_ws rest = [] then Some obj else None))"

text \<open>\<^verbatim>\<open>{str(k): str(v) for k, v in data.items()}\<close>\<close>

definition str_items :: "(string \<times> json) list \<Rightarrow> (string \<times> string) list" where
  "str_items d = foldl (\<lambda>acc (k, v). AList.update (py_str (JStr k)) (py_str v) acc) [] d"

section \<open>The modular input (netbox_inventory.py)\<close>


definition truthy_tokens :: "string set" where
  "truthy_tokens = {''1'', ''true'', ''yes'', ''on''}"

definition parse_bool :: "string option \<Rightarrow> bool \<Rightarrow> bool" where
  "parse_bool value dflt =
     (case value of None \<Rightarrow> dflt | Some v \<Rightarrow> py_lower (py_strip v) \<in> truthy_tokens)"

definition parse_json ::
  "(string \<Rightarrow> (json \<times> string) option) \<Rightarrow> string option \<Rightarrow> error + (string \<times> string) list" where
  "parse_json scan value =
     (case value of
        None \<Rightarrow> Inr []
      | Some v \<Rightarrow>
          if v = [] then Inr []
          else if py_strip v = [] then Inr []
          else (case json_loads scan (py_strip v) of
                  None \<Rightarrow> Inl (ValueError ''Failed to parse JSON payload for query parameters'')
                | Some data \<Rightarrow>
                    if \<not> is_dict data
                    then Inl (ValueError ''Query parameters must be provided as a JSON object'')
                    else Inr (str_items (the_dict data))))"




section \<open>The streaming command (netbox_lookup_command.py)\<close>

definition parse_fields :: "string option \<Rightarrow> string list option" where
  "parse_fields value =
     (case value of
        None \<Rightarrow> None
      | Some v \<Rightarrow>
          if v = [] then None
          else (let parts = filter (\<lambda>p. p \<noteq> []) (map py_strip (split_on CHR '','' v))
                in if parts = [] then None else Some parts))"

record NetBoxLookupCommand =
  opt_netbox_url :: string
  opt_token :: "string option"
  opt_resource :: string
  opt_match_field :: string
  opt_netbox_field :: string
  opt_fields :: "string option"
  opt_verify_ssl :: string
  opt_timeout :: string
  opt_query :: "string option"

text \<open>
  \<^verbatim>\<open>_get_client()\<close>. \<^verbatim>\<open>int(self.timeout)\<close> is library code and a parameter here: \<open>to_int s\<close>
  is the integer read from the text, or the exception \<^verbatim>\<open>int\<close> raises on it, which
  \<^verbatim>\<open>_get_client\<close> lets through.
\<close>

definition get_client :: "(string \<Rightarrow> error + int) \<Rightarrow> NetBoxLookupCommand \<Rightarrow> error + NetBoxClient"
  where
  "get_client to_int cmd =
     (let verify_ssl = py_lower (py_strip (opt_verify_ssl cmd)) \<in> truthy_tokens
      in case to_int (opt_timeout cmd) of
           Inl e \<Rightarrow> Inl e
         | Inr timeout_seconds \<Rightarrow>
             post_init \<lparr>base_url = opt_netbox_url cmd,
                        token = (case opt_token cmd of
                                   None \<Rightarrow> None
                                 | Some t \<Rightarrow> if t = [] then None else Some t),
                        verify = VerifyBool verify_ssl, timeout = timeout_seconds\<rparr>)"

definition base_filters ::
  "(string \<Rightarrow> (json \<times> string) option) \<Rightarrow> string option \<Rightarrow> error + (string \<times> string) list" where
  "base_filters scan query =
     (case query of
        None \<Rightarrow> Inr []
      | Some q \<Rightarrow>
          if q = [] then Inr []
          else (case json_loads scan q of
                  None \<Rightarrow> Inl (ValueError ''Query filters must be a JSON object'')
                | Some payload \<Rightarrow>
                    if \<not> is_dict payload
                    then Inl (ValueError ''Query filters must be a JSON object'')
                    else Inr (str_items (the_dict payload))))"

text \<open>\<^verbatim>\<open>record.setdefault(key, value)\<close> and \<^verbatim>\<open>cache[key]\<close>.\<close>

definition setdefault :: "(string \<times> json) list \<Rightarrow> string \<Rightarrow> json \<Rightarrow> (string \<times> json) list" where
  "setdefault d k v = (if k \<in> fst ` set d then d else d @ [(k, v)])"

definition dict_item :: "(string \<times> json) list \<Rightarrow> string \<Rightarrow> error + json" where
  "dict_item d k = (case map_of d k of None \<Rightarrow> Inl KeyError | Some v \<Rightarrow> Inr v)"

text \<open>The end of the loop body of \<^verbatim>\<open>stream\<close> (lines 72 to 77), for a truthy payload.\<close>

definition enrich :: "string list \<Rightarrow> json \<Rightarrow> (string \<times> json) list \<Rightarrow> error + (string \<times> json) list"
  where
  "enrich field_list payload record =
     (if field_list \<noteq> [] then
        (if is_dict payload then
           Inr (foldl (\<lambda>r field. AList.update (''netbox_'' @ field)
                                    (dict_get (the_dict payload) field) r)
                  record field_list)
         else Inl AttributeError)
      else Inr (setdefault record ''netbox'' (JStr (json_dumps False payload))))"

text \<open>Lines 67 to 77: what becomes of a record once the payload is known.\<close>

definition finish :: "string list \<Rightarrow> json \<Rightarrow> (string \<times> json) list \<Rightarrow> error + (string \<times> json) list"
  where
  "finish field_list payload record =
     (if \<not> py_truthy payload then Inr record else enrich field_list payload record)"

text \<open>
  One turn of the loop of \<^verbatim>\<open>stream\<close>: the record yielded (or the exception), the cache and
  the world after it.
\<close>

definition stream_step ::
  "NetBoxClient \<Rightarrow> NetBoxLookupCommand \<Rightarrow> (string \<times> string) list \<Rightarrow> string list
     \<Rightarrow> (string \<times> json) list \<Rightarrow> (string \<times> json) list \<Rightarrow> world
     \<Rightarrow> (error + (string \<times> json) list) \<times> (string \<times> json) list \<times> world" where
  "stream_step client cmd filters field_list cache record w =
     (let value = dict_get record (opt_match_field cmd)
      in if \<not> py_truthy value then (Inr record, cache, w)
         else
           (let cache_key = py_str value
            in if cache_key \<notin> fst ` set cache then
                 (case get_first client (opt_resource cmd)
                         (Some (AList.update (opt_netbox_field cmd) cache_key filters)) w of
                    (Inl e, w') \<Rightarrow> (Inl e, cache, w')
                  | (Inr item, w') \<Rightarrow>
                      (let cache' = AList.update cache_key item cache
                       in case dict_item cache' cache_key of
                            Inl e \<Rightarrow> (Inl e, cache', w')
                          | Inr payload \<Rightarrow> (finish field_list payload record, cache', w')))
               else
                 (case dict_item cache cache_key of
                    Inl e \<Rightarrow> (Inl e, cache, w)
                  | Inr payload \<Rightarrow> (finish field_list payload record, cache, w))))"

fun stream_loop ::
  "NetBoxClient \<Rightarrow> NetBoxLookupCommand \<Rightarrow> (string \<times> string) list \<Rightarrow> string list
     \<Rightarrow> (string \<times> json) list \<Rightarrow> (string \<times> json) list list \<Rightarrow> world
     \<Rightarrow> ((string \<times> json) list list \<times> error option \<times> (string \<times> json) list) \<times> world" where
  "stream_loop client cmd filters field_list cache [] w = (([], None, cache), w)"
| "stream_loop client cmd filters field_list cache (record # records) w =
     (case stream_step client cmd filters field_list cache record w of
        (Inl e, cache', w') \<Rightarrow> (([], Some e, cache'), w')
      | (Inr out, cache', w') \<Rightarrow>
          (case stream_loop client cmd filters field_list cache' records w' of
             ((outs, err, cache''), w'') \<Rightarrow> ((out # outs, err, cache''), w'')))"

text \<open>
  \<^verbatim>\<open>stream(records)\<close>, run to its end: the records yielded, the exception that ended the run
  if any, and the cache at the end.
\<close>

definition stream ::
  "(string \<Rightarrow> (json \<times> string) option) \<Rightarrow> (string \<Rightarrow> error + int) \<Rightarrow> NetBoxLookupCommand
     \<Rightarrow> (string \<times> json) list list \<Rightarrow> world
     \<Rightarrow> ((string \<times> json) list list \<times> error option \<times> (string \<times> json) list) \<times> world" where
  "stream scan to_int cmd records w =
     (case get_client to_int cmd of
        Inl e \<Rightarrow> (([], Some e, []), w)
      | Inr client \<Rightarrow>
          (case base_filters scan (opt_query cmd) of
             Inl e \<Rightarrow> (([], Some e, []), w)
           | Inr filters \<Rightarrow>
               stream_loop client cmd filters
                 (case parse_fields (opt_fields cmd) of None \<Rightarrow> [] | Some fs \<Rightarrow> fs)
                 [] records w))"

section \<open>Vocabulary of the claims\<close>


text \<open>
  The parameters of the requests that carry any. \<^verbatim>\<open>iter_resource\<close> sends parameters with its
  first request only, so these are the first requests of the calls of \<^verbatim>\<open>get_first\<close>.
\<close>

fun lookups :: "http_request list \<Rightarrow> (string \<times> string) list list" where
  "lookups [] = []"
| "lookups (r # rs) = (case req_params r of Some p \<Rightarrow> p # lookups rs | None \<Rightarrow> lookups rs)"

text \<open>
  What one resumption of the generator does to the world, for the proofs: it consumes \<open>n\<close>
  responses of which all but the last are skipped pages, and it logs requests of which only
  the first of a fresh generator carries parameters.
\<close>

fun refetches :: "gen \<Rightarrow> bool" where
  "refetches (LoopHead nu cp) = True"
| "refetches (InResults items data) =
     (items = [] \<and> py_truthy (dict_get (the_dict data) ''next''))"
| "refetches _ = False"

definition fetched :: "gen \<Rightarrow> world \<Rightarrow> resume \<Rightarrow> world \<Rightarrow> nat \<Rightarrow> bool" where
  "fetched g w res w' n =
     (n \<le> length (queue w) \<and> queue w' = drop n (queue w)
      \<and> (\<forall>i. Suc i < n \<longrightarrow> skipped_page (queue w ! i))
      \<and> (0 < n \<longrightarrow> refetches g)
      \<and> length (log w') = length (log w) + n + (if res = Raise TransportError then 1 else 0))"

fun first_params :: "gen \<Rightarrow> (string \<times> string) list list" where
  "first_params (LoopHead nu cp) =
     (if py_truthy nu then [] else (case cp of Some p \<Rightarrow> [p] | None \<Rightarrow> []))"
| "first_params _ = []"

definition logged :: "gen \<Rightarrow> world \<Rightarrow> world \<Rightarrow> bool" where
  "logged g w w' = (\<exists>rest. log w' = log w @ rest \<and> lookups rest = first_params g)"

section \<open>Sample data\<close>

definition client0 :: NetBoxClient where
  "client0 = \<lparr>base_url = ''https://netbox.example.com/api/'', token = None,
              verify = VerifyBool True, timeout = 60\<rparr>"

definition page1 :: response where
  "page1 = \<lparr>status_code = 200, body_text = [], json_body = Some (JDict
     [(''count'', JInt 3), (''next'', JStr ''https://netbox.example.com/api/dcim/devices/?offset=2''),
      (''previous'', JNull),
      (''results'', JList [JDict [(''id'', JInt 1)], JDict [(''id'', JInt 2)]])])\<rparr>"

definition page2 :: response where
  "page2 = \<lparr>status_code = 200, body_text = [], json_body = Some (JDict
     [(''count'', JInt 3), (''next'', JNull), (''previous'', JNull),
      (''results'', JList [JDict [(''id'', JInt 3)]])])\<rparr>"

definition page0 :: response where
  "page0 = \<lparr>status_code = 200, body_text = [], json_body = Some (JDict
     [(''next'', JStr ''/dcim/devices/?offset=0''), (''results'', JList [])])\<rparr>"


definition query0 :: string where
  \<open>query0 = ''{"site": "nyc", "limit": 50, "tag": null}''\<close>

definition scan0 :: "string \<Rightarrow> (json \<times> string) option" where
  "scan0 s =
     (if s = query0
      then Some (JDict [(''site'', JStr ''nyc''), (''limit'', JInt 50), (''tag'', JNull)], [])
      else None)"

definition int0 :: "string \<Rightarrow> error + int" where
  "int0 s =
     (if s = ''60'' then Inr 60
      else Inl (ValueError (''invalid literal for int() with base 10: '' @ py_repr_str s)))"

definition cmd0 :: NetBoxLookupCommand where
  "cmd0 = \<lparr>opt_netbox_url = ''https://netbox.example.com/api'', opt_token = None,
           opt_resource = ''dcim/devices'', opt_match_field = ''host'',
           opt_netbox_field = ''name'', opt_fields = None, opt_verify_ssl = ''true'',
           opt_timeout = ''60'', opt_query = None\<rparr>"

definition device0 :: json where
  "device0 = JDict [(''name'', JStr ''sw1''), (''site'', JStr ''nyc''), (''role'', JStr ''core'')]"

definition found0 :: response where
  "found0 = \<lparr>status_code = 200, body_text = [], json_body = Some (JDict
     [(''count'', JInt 1), (''next'', JNull), (''previous'', JNull),
      (''results'', JList [device0])])\<rparr>"

definition found_empty0 :: response where
  "found_empty0 = \<lparr>status_code = 200, body_text = [], json_body = Some (JDict
     [(''count'', JInt 1), (''next'', JNull), (''previous'', JNull),
      (''results'', JList [JDict []])])\<rparr>"

definition found1 :: response where
  "found1 = \<lparr>status_code = 200, body_text = [], json_body = Some (JDict
     [(''count'', JInt 1), (''next'', JNull), (''previous'', JNull),
      (''results'', JList [JDict [(''name'', JStr ''sw2'')]])])\<rparr>"

definition records0 :: "(string \<times> json) list list" where
  "records0 = [[(''host'', JStr ''sw1'')], [(''host'', JStr ''sw2'')],
               [(''host'', JStr ''sw1''), (''netbox'', JStr ''kept'')],
               [(''host'', JStr ''sw3'')]]"

section \<open>Failed requests\<close>

text \<open>
  C3, as the code has it. When the response status is not in the success range (400 to
  599), \<^verbatim>\<open>_request\<close> consumes the response and fails with a \<open>NetBoxAPIError\<close> that carries the
  status code. Its payload is the parsed JSON body when the body is JSON and truthy, and the
  empty mapping otherwise: a body that is not JSON, or JSON that is \<^verbatim>\<open>null\<close>, \<^verbatim>\<open>false\<close>, zero or
  empty. The raw text of the body is not carried.
\<close>

theorem request_error_payload:
  assumes "queue w = resp # rest" and "\<not> ok resp"
  shows "request c m (JStr p) ps w =
           (Inl (NetBoxAPIError
                   (''NetBox API request failed with status '' @ show_int (status_code resp))
                   (Some (status_code resp))
                   (case json_body resp of
                      Some v \<Rightarrow> if py_truthy v then v else JDict []
                    | None \<Rightarrow> JDict [])),
            w\<lparr>queue := rest, log := log w @ [build_request c m p ps]\<rparr>)"
  using assms
  by (simp add: request_def session_request_def NetBoxAPIError_init_def py_or_def
      split: option.splits)

theorem request_error_payload_witness:
  "request client0 ''GET'' (JStr ''dcim/devices/'') None
     \<lparr>queue = [\<lparr>status_code = 403, body_text = [],
                 json_body = Some (JDict [(''detail'', JStr ''Forbidden'')])\<rparr>], log = []\<rparr>
   = (Inl (NetBoxAPIError ''NetBox API request failed with status 403'' (Some 403)
             (JDict [(''detail'', JStr ''Forbidden'')])),
      \<lparr>queue = [], log = [build_request client0 ''GET'' ''dcim/devices/'' None]\<rparr>)"
  using request_error_payload
    [of "\<lparr>queue = [\<lparr>status_code = 403, body_text = [],
                 json_body = Some (JDict [(''detail'', JStr ''Forbidden'')])\<rparr>], log = []\<rparr>"
        "\<lparr>status_code = 403, body_text = [],
                 json_body = Some (JDict [(''detail'', JStr ''Forbidden'')])\<rparr>" "[]"
        client0 "''GET''" "''dcim/devices/''" None]
  by (simp add: ok_def show_int_def show_nat.simps)

text \<open>
  C3, as stated, fails: a status 500 response whose body \<^verbatim>\<open>oops\<close> is not JSON gives the
  empty payload, not the raw text under the key \<^verbatim>\<open>raw\<close>.
\<close>

theorem request_error_raw_text_counterexample:
  "fst (request client0 ''GET'' (JStr ''dcim/devices/'') None
          \<lparr>queue = [\<lparr>status_code = 500, body_text = ''oops'', json_body = None\<rparr>], log = []\<rparr>)
     = Inl (NetBoxAPIError ''NetBox API request failed with status 500'' (Some 500) (JDict []))
   \<and> JDict [] \<noteq> JDict [(''raw'', JStr ''oops'')]"
  by (simp add: request_def session_request_def NetBoxAPIError_init_def py_or_def ok_def
      show_int_def show_nat.simps)

section \<open>Iterating over a resource\<close>

lemma drain_cong_next:
  "gen_next c r g w = gen_next c r g2 w2 \<Longrightarrow> drain c r g w = drain c r g2 w2"
  by (simp add: drain.simps [of c r g w] drain.simps [of c r g2 w2])

lemma drain_InResults_Cons:
  "drain c r (InResults (x # items) data) w =
     (case drain c r (InResults items data) w of ((xs, e), w') \<Rightarrow> ((x # xs, e), w'))"
  by (simp add: drain.simps [of c r "InResults (x # items) data" w])

lemma drain_last_page:
  assumes "\<not> py_truthy (dict_get (the_dict data) ''next'')"
  shows "drain c r (InResults [] data) w = (([], None), w)"
  using assms by (simp add: drain.simps [of c r "InResults [] data" w])

lemma drain_InResults:
  "drain c r (InResults items data) w =
     (case drain c r (InResults [] data) w of ((xs, e), w') \<Rightarrow> ((items @ xs, e), w'))"
proof (induction items)
  case Nil
  show ?case by (cases "drain c r (InResults [] data) w") auto
next
  case (Cons x items)
  show ?case
    unfolding drain_InResults_Cons Cons
    by (cases "drain c r (InResults [] data) w") auto
qed

lemma request_ok:
  assumes "queue w = p # rest" and "ok p"
  shows "request c m (JStr path) ps w =
           (Inr p, w\<lparr>queue := rest, log := log w @ [build_request c m path ps]\<rparr>)"
  using assms by (simp add: request_def session_request_def)

lemma gen_next_page:
  assumes "queue w = p # rest" and "is_page p" and "py_or nu (JStr resource) = JStr path"
  shows "gen_next c resource (LoopHead nu cp) w =
           gen_next c resource (InResults (page_results p) (the (json_body p)))
             (w\<lparr>queue := rest,
                log := log w @ [build_request c ''GET'' path
                                  (if \<not> py_truthy nu then cp else None)]\<rparr>)"
proof -
  from assms(2) obtain data where d: "json_body p = Some data" and okp: "ok p"
    and env: "is_envelope data" and il: "is_list (dict_get (the_dict data) ''results'')"
    by (auto simp: is_page_def split: option.splits)
  from il obtain xs where xs: "dict_get (the_dict data) ''results'' = JList xs"
    by (auto simp: is_list_def split: json.splits)
  from env have "''results'' \<in> fst ` set (the_dict data)"
    by (simp add: is_envelope_def)
  then obtain v where "map_of (the_dict data) ''results'' = Some v"
    by (metis domD dom_map_of_conv_image_fst)
  with xs have dd: "dict_get_default (the_dict data) ''results'' (JList []) = JList xs"
    by (simp add: dict_get_def dict_get_default_def)
  have pr: "page_results p = xs"
    by (simp add: page_results_def d xs the_list_def)
  show ?thesis
    by (simp add: assms(3) request_ok [OF assms(1) okp] d env dd pr)
qed

lemma drain_pages:
  assumes "\<forall>p \<in> set pages. is_page p \<and> is_cursor (page_next p)"
    and "is_page lastp" and "\<not> py_truthy (page_next lastp)"
    and "queue w = pages @ lastp # rest"
    and "py_or nu (JStr resource) = JStr path"
  shows "drain c resource (LoopHead nu cp) w =
           ((concat (map page_results (pages @ [lastp])), None),
            w\<lparr>queue := rest,
              log := log w @ build_request c ''GET'' path (if \<not> py_truthy nu then cp else None)
                       # map (\<lambda>p. build_request c ''GET'' (the_str (page_next p)) None) pages\<rparr>)"
  using assms
proof (induction pages arbitrary: w nu cp path)
  case Nil
  then have q: "queue w = lastp # rest" by simp
  from Nil(2) obtain data where d: "json_body lastp = Some data"
    by (auto simp: is_page_def split: option.splits)
  with Nil(3) have nn: "\<not> py_truthy (dict_get (the_dict data) ''next'')"
    by (simp add: page_next_def)
  have "drain c resource (LoopHead nu cp) w =
          drain c resource (InResults (page_results lastp) data)
             (w\<lparr>queue := rest,
                log := log w @ [build_request c ''GET'' path
                                  (if \<not> py_truthy nu then cp else None)]\<rparr>)"
    using drain_cong_next [OF gen_next_page [OF q Nil(2) Nil(5)]] d by simp
  also have "\<dots> = ((page_results lastp, None),
             (w\<lparr>queue := rest,
                log := log w @ [build_request c ''GET'' path
                                  (if \<not> py_truthy nu then cp else None)]\<rparr>))"
    unfolding drain_InResults [of _ _ "page_results lastp"] drain_last_page [OF nn] by simp
  finally show ?case by simp
next
  case (Cons p pages)
  then have q: "queue w = p # (pages @ lastp # rest)" by simp
  from Cons.prems(1) have pg: "is_page p" and cur: "is_cursor (page_next p)" by simp_all
  from pg obtain data where d: "json_body p = Some data"
    by (auto simp: is_page_def split: option.splits)
  from cur d obtain s where s: "dict_get (the_dict data) ''next'' = JStr s" "s \<noteq> []"
    by (auto simp: is_cursor_def page_next_def split: json.splits)
  define w1 where "w1 = w\<lparr>queue := pages @ lastp # rest,
                log := log w @ [build_request c ''GET'' path
                                  (if \<not> py_truthy nu then cp else None)]\<rparr>"
  have first: "drain c resource (LoopHead nu cp) w =
          drain c resource (InResults (page_results p) data) w1"
    using drain_cong_next [OF gen_next_page [OF q pg Cons.prems(5)]] d by (simp add: w1_def)
  have step: "drain c resource (InResults [] data) w1
                = drain c resource (LoopHead (JStr s) None) w1"
    by (rule drain_cong_next) (simp add: s)
  have rec: "drain c resource (LoopHead (JStr s) None) w1 =
           ((concat (map page_results (pages @ [lastp])), None),
            w1\<lparr>queue := rest,
              log := log w1 @ build_request c ''GET'' s (if \<not> py_truthy (JStr s) then None else None)
                       # map (\<lambda>p. build_request c ''GET'' (the_str (page_next p)) None) pages\<rparr>)"
  proof (rule Cons.IH)
    show "\<forall>p\<in>set pages. is_page p \<and> is_cursor (page_next p)" using Cons.prems(1) by simp
    show "is_page lastp" by (rule Cons.prems(2))
    show "\<not> py_truthy (page_next lastp)" by (rule Cons.prems(3))
    show "queue w1 = pages @ lastp # rest" by (simp add: w1_def)
    show "py_or (JStr s) (JStr resource) = JStr s" using s by (simp add: py_or_def)
  qed
  have ns: "the_str (page_next p) = s"
    by (simp add: page_next_def d s the_str_def)
  have "drain c resource (LoopHead nu cp) w =
          (case drain c resource (LoopHead (JStr s) None) w1 of
             ((xs, e), w') \<Rightarrow> ((page_results p @ xs, e), w'))"
    unfolding first drain_InResults [of _ _ "page_results p"] step ..
  also have "\<dots> = ((page_results p @ concat (map page_results (pages @ [lastp])), None),
            w1\<lparr>queue := rest,
              log := log w1 @ build_request c ''GET'' s None
                       # map (\<lambda>p. build_request c ''GET'' (the_str (page_next p)) None) pages\<rparr>)"
    unfolding rec by simp
  finally show ?case by (simp add: w1_def ns)
qed

text \<open>
  C1, as the code has it. Let the server answer with the pages \<open>pages @ [lastp]\<close>: successful
  envelopes with a list under \<^verbatim>\<open>results\<close>, every page but the last with a cursor (a non-empty
  string) under \<^verbatim>\<open>next\<close>, the last with a falsy \<^verbatim>\<open>next\<close>. Then iterating \<^verbatim>\<open>iter_resource\<close> to the
  end yields the concatenation of the pages' results, page by page and index by index,
  without an error; their number is the sum of the pages' lengths. It issues one \<^verbatim>\<open>GET\<close>
  request per page and no other. The first goes to the base URL joined with the resource
  stripped of its leading slashes, and carries the caller's parameters (the empty mapping
  when there are none). Each following one goes to the base URL joined with the \<^verbatim>\<open>next\<close> value
  of the page before, stripped of its leading slashes, and carries no parameters.
\<close>

theorem iter_resource_pagination:
  assumes "\<forall>p \<in> set pages. is_page p \<and> is_cursor (page_next p)"
    and "is_page lastp" and "\<not> py_truthy (page_next lastp)"
    and "queue w = pages @ lastp # rest"
  shows "drain c resource (iter_resource resource ps) w =
           ((concat (map page_results (pages @ [lastp])), None),
            w\<lparr>queue := rest,
              log := log w @
                \<lparr>req_method = ''GET'',
                 req_url = UrlJoin (base_url c) (dropWhile (\<lambda>ch. ch = CHR ''/'') resource),
                 req_params = Some (case ps of None \<Rightarrow> [] | Some d \<Rightarrow> d),
                 req_timeout = timeout c, req_verify = verify c\<rparr>
                # map (\<lambda>p.
                    \<lparr>req_method = ''GET'',
                     req_url = UrlJoin (base_url c)
                                 (dropWhile (\<lambda>ch. ch = CHR ''/'') (the_str (page_next p))),
                     req_params = None,
                     req_timeout = timeout c, req_verify = verify c\<rparr>) pages\<rparr>)
         \<and> length (fst (fst (drain c resource (iter_resource resource ps) w)))
             = sum_list (map (\<lambda>p. length (page_results p)) (pages @ [lastp]))
         \<and> length (log (snd (drain c resource (iter_resource resource ps) w)))
             = length (log w) + length (pages @ [lastp])"
proof -
  have "py_or JNull (JStr resource) = JStr resource" by (simp add: py_or_def)
  from drain_pages [OF assms this, of c "Some (case ps of None \<Rightarrow> [] | Some d \<Rightarrow> d)"]
  show ?thesis
    by (simp add: iter_resource_def length_concat comp_def build_request_def lstrip_slash_def)
qed

theorem iter_resource_pagination_witness:
  "drain client0 ''dcim/devices/'' (iter_resource ''dcim/devices/'' (Some [(''site'', ''nyc'')]))
     \<lparr>queue = [page1, page2], log = []\<rparr> =
     (([JDict [(''id'', JInt 1)], JDict [(''id'', JInt 2)], JDict [(''id'', JInt 3)]], None),
      \<lparr>queue = [],
       log = [\<lparr>req_method = ''GET'',
               req_url = UrlJoin ''https://netbox.example.com/api/'' ''dcim/devices/'',
               req_params = Some [(''site'', ''nyc'')],
               req_timeout = 60, req_verify = VerifyBool True\<rparr>,
              \<lparr>req_method = ''GET'',
               req_url = UrlJoin ''https://netbox.example.com/api/''
                           ''https://netbox.example.com/api/dcim/devices/?offset=2'',
               req_params = None,
               req_timeout = 60, req_verify = VerifyBool True\<rparr>]\<rparr>)"
  using iter_resource_pagination
    [of "[page1]" page2 "\<lparr>queue = [page1, page2], log = []\<rparr>" "[]"
        client0 "''dcim/devices/''" "Some [(''site'', ''nyc'')]"]
  by (simp add: page1_def page2_def is_page_def is_cursor_def page_next_def
      page_results_def ok_def is_envelope_def is_dict_def is_list_def the_dict_def the_list_def
      dict_get_def the_str_def client0_def)

text \<open>
  C1, as stated, fails where it has the following requests go against the \<^verbatim>\<open>next\<close> value
  itself: \<^verbatim>\<open>_request\<close> strips the leading slashes of its path before it joins it to the base
  URL. A page whose \<^verbatim>\<open>next\<close> is \<^verbatim>\<open>/dcim/devices/?offset=0\<close> is followed by a request for
  \<^verbatim>\<open>dcim/devices/?offset=0\<close> relative to the base URL, not for the cursor.
\<close>

theorem iter_resource_cursor_counterexample:
  "map req_url (log (snd (drain client0 ''dcim/devices/'' (iter_resource ''dcim/devices/'' None)
                            \<lparr>queue = [page0, page2], log = []\<rparr>)))
     = [UrlJoin ''https://netbox.example.com/api/'' ''dcim/devices/'',
        UrlJoin ''https://netbox.example.com/api/'' ''dcim/devices/?offset=0'']
   \<and> page_next page0 = JStr ''/dcim/devices/?offset=0''
   \<and> UrlJoin ''https://netbox.example.com/api/'' ''dcim/devices/?offset=0''
       \<noteq> UrlJoin ''https://netbox.example.com/api/'' ''/dcim/devices/?offset=0''"
proof -
  have "drain client0 ''dcim/devices/'' (iter_resource ''dcim/devices/'' None)
          \<lparr>queue = [page0, page2], log = []\<rparr> =
        (([JDict [(''id'', JInt 3)]], None),
         \<lparr>queue = [],
          log = [build_request client0 ''GET'' ''dcim/devices/'' (Some []),
                 build_request client0 ''GET'' ''/dcim/devices/?offset=0'' None]\<rparr>)"
    using drain_pages
      [of "[page0]" page2 "\<lparr>queue = [page0, page2], log = []\<rparr>" "[]"
        JNull "''dcim/devices/''" "''dcim/devices/''" client0 "Some []"]
    by (simp add: page0_def page2_def is_page_def is_cursor_def page_next_def
      page_results_def ok_def is_envelope_def is_dict_def is_list_def the_dict_def the_list_def
      dict_get_def the_str_def iter_resource_def py_or_def)
  then show ?thesis
    by (simp add: build_request_def lstrip_slash_def client0_def page_next_def page0_def
        the_dict_def dict_get_def)
qed

text \<open>
  C2. A successful response whose body is a mapping that lacks \<^verbatim>\<open>results\<close> or \<^verbatim>\<open>next\<close> (so
  also one with \<^verbatim>\<open>results\<close> and no \<^verbatim>\<open>next\<close> at all) is not an envelope: the iteration yields
  the mapping itself, once, and stops after this one request.
\<close>

theorem iter_resource_single_object:
  assumes "queue w = resp # rest" and "ok resp" and "json_body resp = Some (JDict d)"
    and "\<not> (''results'' \<in> fst ` set d \<and> ''next'' \<in> fst ` set d)"
  shows "drain c resource (iter_resource resource ps) w =
           (([JDict d], None),
            w\<lparr>queue := rest,
              log := log w @ [build_request c ''GET'' resource
                                (Some (case ps of None \<Rightarrow> [] | Some p \<Rightarrow> p))]\<rparr>)
         \<and> \<not> is_envelope (JDict d)"
  using assms
  by (auto simp: drain.simps [of _ _ "LoopHead _ _"] drain.simps [of _ _ AfterSingle]
      iter_resource_def request_def session_request_def py_or_def
      is_envelope_def is_dict_def the_dict_def is_list_def)

theorem iter_resource_single_object_witness:
  "drain client0 ''dcim/devices/'' (iter_resource ''dcim/devices/'' None)
     \<lparr>queue = [\<lparr>status_code = 200, body_text = [],
                 json_body = Some (JDict [(''results'', JList [JInt 1, JInt 2])])\<rparr>, page2],
      log = []\<rparr> =
     (([JDict [(''results'', JList [JInt 1, JInt 2])]], None),
      \<lparr>queue = [page2],
       log = [build_request client0 ''GET'' ''dcim/devices/'' (Some [])]\<rparr>)
   \<and> \<not> is_envelope (JDict [(''results'', JList [JInt 1, JInt 2])])"
  using iter_resource_single_object
    [of "\<lparr>queue = [\<lparr>status_code = 200, body_text = [],
                 json_body = Some (JDict [(''results'', JList [JInt 1, JInt 2])])\<rparr>, page2],
      log = []\<rparr>"
      "\<lparr>status_code = 200, body_text = [],
                 json_body = Some (JDict [(''results'', JList [JInt 1, JInt 2])])\<rparr>"
      "[page2]" "[(''results'', JList [JInt 1, JInt 2])]" client0 "''dcim/devices/''" None]
  by (simp add: ok_def)

section \<open>Fetching by identifier\<close>

text \<open>
  C6, as the code has it. \<^verbatim>\<open>get_by_id\<close> issues one request for \<^verbatim>\<open>resource/id/\<close>. A response with
  status 404 gives absence; any other status outside the success range re-raises the
  \<open>NetBoxAPIError\<close> of \<^verbatim>\<open>_request\<close> with that status; a successful response gives its parsed JSON
  body, whatever it is (so absence again when the body is \<^verbatim>\<open>null\<close>), and a
  \<open>NetBoxAPIError\<close> when the body is not JSON.
\<close>

theorem get_by_id_result:
  assumes "queue w = resp # rest"
  shows "get_by_id c resource oid w =
           (if \<not> ok resp then
              (if status_code resp = 404 then Inr JNull
               else Inl (NetBoxAPIError
                           (''NetBox API request failed with status '' @ show_int (status_code resp))
                           (Some (status_code resp))
                           (case json_body resp of
                              Some v \<Rightarrow> if py_truthy v then v else JDict []
                            | None \<Rightarrow> JDict [])))
            else
              (case json_body resp of
                 Some data \<Rightarrow> Inr data
               | None \<Rightarrow>
                   Inl (NetBoxAPIError ''NetBox API returned non JSON response'' None
                          (JDict [(''raw'', JStr (body_text resp))]))),
            w\<lparr>queue := rest,
              log := log w @ [build_request c ''GET''
                                (rstrip_slash resource @ ''/'' @ format_id oid @ ''/'') None]\<rparr>)"
  using assms
  by (simp add: get_by_id_def request_def session_request_def NetBoxAPIError_init_def py_or_def
      split: option.splits)

theorem get_by_id_result_witness:
  "get_by_id client0 ''dcim/devices/'' (IdInt 7)
     \<lparr>queue = [\<lparr>status_code = 404, body_text = [],
                 json_body = Some (JDict [(''detail'', JStr ''Not found.'')])\<rparr>], log = []\<rparr>
     = (Inr JNull,
        \<lparr>queue = [], log = [build_request client0 ''GET'' ''dcim/devices/7/'' None]\<rparr>)
   \<and> get_by_id client0 ''dcim/devices/'' (IdInt 7)
     \<lparr>queue = [\<lparr>status_code = 500, body_text = ''oops'', json_body = None\<rparr>], log = []\<rparr>
     = (Inl (NetBoxAPIError ''NetBox API request failed with status 500'' (Some 500) (JDict [])),
        \<lparr>queue = [], log = [build_request client0 ''GET'' ''dcim/devices/7/'' None]\<rparr>)
   \<and> get_by_id client0 ''dcim/devices/'' (IdInt 7)
     \<lparr>queue = [\<lparr>status_code = 200, body_text = [],
                 json_body = Some (JDict [(''id'', JInt 7)])\<rparr>], log = []\<rparr>
     = (Inr (JDict [(''id'', JInt 7)]),
        \<lparr>queue = [], log = [build_request client0 ''GET'' ''dcim/devices/7/'' None]\<rparr>)"
  using
    get_by_id_result
      [of "\<lparr>queue = [\<lparr>status_code = 404, body_text = [],
                 json_body = Some (JDict [(''detail'', JStr ''Not found.'')])\<rparr>], log = []\<rparr>"
          "\<lparr>status_code = 404, body_text = [],
                 json_body = Some (JDict [(''detail'', JStr ''Not found.'')])\<rparr>" "[]"
          client0 "''dcim/devices/''" "IdInt 7"]
    get_by_id_result
      [of "\<lparr>queue = [\<lparr>status_code = 500, body_text = ''oops'', json_body = None\<rparr>], log = []\<rparr>"
          "\<lparr>status_code = 500, body_text = ''oops'', json_body = None\<rparr>" "[]"
          client0 "''dcim/devices/''" "IdInt 7"]
    get_by_id_result
      [of "\<lparr>queue = [\<lparr>status_code = 200, body_text = [],
                 json_body = Some (JDict [(''id'', JInt 7)])\<rparr>], log = []\<rparr>"
          "\<lparr>status_code = 200, body_text = [],
                 json_body = Some (JDict [(''id'', JInt 7)])\<rparr>" "[]"
          client0 "''dcim/devices/''" "IdInt 7"]
  by (simp add: ok_def rstrip_slash_def show_int_def show_nat.simps)

text \<open>
  C6, as stated, fails in the direction "absence only on 404": a status 200 response with the
  body \<^verbatim>\<open>null\<close> also gives absence, and the underlying request succeeds.
\<close>

theorem get_by_id_null_body_counterexample:
  "fst (get_by_id client0 ''dcim/devices'' (IdInt 7)
          \<lparr>queue = [\<lparr>status_code = 200, body_text = ''null'', json_body = Some JNull\<rparr>],
           log = []\<rparr>) = Inr JNull
   \<and> fst (request client0 ''GET'' (JStr ''dcim/devices/7/'') None
          \<lparr>queue = [\<lparr>status_code = 200, body_text = ''null'', json_body = Some JNull\<rparr>],
           log = []\<rparr>)
       = Inr \<lparr>status_code = 200, body_text = ''null'', json_body = Some JNull\<rparr>"
  by (simp add: get_by_id_def request_def session_request_def ok_def)

section \<open>The first item\<close>

lemma fetched_zero:
  "res \<noteq> Raise TransportError \<Longrightarrow> fetched g w res w 0"
  by (simp add: fetched_def)

lemma fetched_one:
  "queue w = p # rest \<Longrightarrow> res \<noteq> Raise TransportError \<Longrightarrow> refetches g \<Longrightarrow>
   fetched g w res (w\<lparr>queue := rest, log := log w @ [req]\<rparr>) (Suc 0)"
  by (simp add: fetched_def)

lemma fetched_step:
  assumes "queue w = p # rest"
    and "fetched g1 (w\<lparr>queue := rest, log := log w @ [req]\<rparr>) res w' m"
    and "0 < m \<Longrightarrow> skipped_page p"
    and "refetches g"
  shows "fetched g w res w' (Suc m)"
proof -
  have "skipped_page ((p # rest) ! i)" if "Suc i < Suc m" for i
  proof (cases i)
    case 0
    with that assms(3) show ?thesis by simp
  next
    case (Suc j)
    with that assms(2) show ?thesis by (simp add: fetched_def)
  qed
  with assms show ?thesis by (simp add: fetched_def)
qed

lemma request_cases:
  assumes "request c m path ps w = (res, w1)"
  shows "(res = Inl AttributeError \<and> w1 = w)
       \<or> (res = Inl TransportError \<and> queue w = [] \<and> queue w1 = []
            \<and> length (log w1) = length (log w) + 1)
       \<or> (\<exists>p rest req. queue w = p # rest \<and> w1 = w\<lparr>queue := rest, log := log w @ [req]\<rparr>
            \<and> ((\<exists>e. res = Inl e \<and> e \<noteq> TransportError \<and> \<not> ok p) \<or> (res = Inr p \<and> ok p)))"
  using assms
  by (cases path; cases "queue w")
     (auto simp: request_def session_request_def NetBoxAPIError_init_def split: if_splits)

lemma gen_next_fetched:
  "gen_next c r g w = (res, w') \<Longrightarrow> \<exists>n. fetched g w res w' n"
proof (induction c r g w arbitrary: res w' rule: gen_next.induct)
  case (1 c resource next_url current_params w)
  let ?g = "LoopHead next_url current_params"
  obtain rr w1 where req:
    "request c ''GET'' (py_or next_url (JStr resource))
       (if \<not> py_truthy next_url then current_params else None) w = (rr, w1)"
    by force
  from request_cases [OF req] consider
      (attr) "rr = Inl AttributeError" "w1 = w"
    | (transport) "rr = Inl TransportError" "queue w = []" "queue w1 = []"
        "length (log w1) = length (log w) + 1"
    | (failed) p rest rq e where "queue w = p # rest"
        "w1 = w\<lparr>queue := rest, log := log w @ [rq]\<rparr>" "rr = Inl e" "e \<noteq> TransportError"
    | (got) p rest rq where "queue w = p # rest"
        "w1 = w\<lparr>queue := rest, log := log w @ [rq]\<rparr>" "rr = Inr p" "ok p"
    by blast
  then show ?case
  proof cases
    case attr
    with req "1.prems" have "res = Raise AttributeError" "w' = w" by simp_all
    then show ?thesis using fetched_zero [of res ?g w] by auto
  next
    case transport
    with req "1.prems" have "res = Raise TransportError" "w' = w1" by simp_all
    with transport have "fetched ?g w res w' 0" by (simp add: fetched_def)
    then show ?thesis ..
  next
    case failed
    with req "1.prems" have "res = Raise e" "w' = w1" by simp_all
    with failed have "fetched ?g w res w' (Suc 0)"
      using fetched_one [of w p rest res ?g rq] by simp
    then show ?thesis ..
  next
    case got
    have one: "fetched ?g w res w' (Suc 0)" if "res \<noteq> Raise TransportError" "w' = w1"
      using that got fetched_one [of w p rest res ?g rq] by simp
    show ?thesis
    proof (cases "json_body p")
      case None
      with req got "1.prems" have "res \<noteq> Raise TransportError" "w' = w1"
        by (auto simp: NetBoxAPIError_init_def)
      from one [OF this] show ?thesis ..
    next
      case (Some data)
      show ?thesis
      proof (cases "is_envelope data")
        case True
        show ?thesis
        proof (cases "py_iter (dict_get_default (the_dict data) ''results'' (JList []))")
          case (Inl e)
          then have "e = TypeError"
            by (cases "dict_get_default (the_dict data) ''results'' (JList [])") auto
          with Inl req got Some True "1.prems" have "res \<noteq> Raise TransportError" "w' = w1"
            by auto
          from one [OF this] show ?thesis ..
        next
          case inr: (Inr items)
          from req got Some True inr "1.prems"
          have g: "gen_next c resource (InResults items data) w1 = (res, w')" by simp
          from "1.IH"(1) [OF req [symmetric] got(3) Some True inr g]
          obtain m where m: "fetched (InResults items data) w1 res w' m" ..
          have "skipped_page p" if "0 < m"
            using that m got(4) Some True inr by (simp add: fetched_def skipped_page_def)
          with fetched_step [of w p rest "InResults items data" rq res w' m ?g] m got
          have "fetched ?g w res w' (Suc m)" by simp
          then show ?thesis ..
        qed
      next
        case False
        show ?thesis
        proof (cases "is_list data")
          case True
          from req got Some False True "1.prems"
          have g: "gen_next c resource (InList (the_list data)) w1 = (res, w')" by simp
          from "1.IH"(2) [OF req [symmetric] got(3) Some False True g]
          obtain m where m: "fetched (InList (the_list data)) w1 res w' m" ..
          then have "m = 0" by (simp add: fetched_def)
          with fetched_step [of w p rest "InList (the_list data)" rq res w' m ?g] m got
          have "fetched ?g w res w' (Suc m)" by simp
          then show ?thesis ..
        next
          case nl: False
          with req got Some False "1.prems" have "res \<noteq> Raise TransportError" "w' = w1"
            by (auto simp: NetBoxAPIError_init_def split: if_splits)
          from one [OF this] show ?thesis ..
        qed
      qed
    qed
  qed
next
  case (2 c resource item items data w)
  then have "fetched (InResults (item # items) data) w res w' 0"
    by (auto simp: fetched_def)
  then show ?case ..
next
  case (3 c resource data w)
  show ?case
  proof (cases "py_truthy (dict_get (the_dict data) ''next'')")
    case True
    with "3.prems" have
      "gen_next c resource (LoopHead (dict_get (the_dict data) ''next'') None) w = (res, w')"
      by simp
    from "3.IH" [OF refl _ this] True obtain n where
      "fetched (LoopHead (dict_get (the_dict data) ''next'') None) w res w' n" by auto
    with True have "fetched (InResults [] data) w res w' n" by (simp add: fetched_def)
    then show ?thesis ..
  next
    case False
    with "3.prems" have "fetched (InResults [] data) w res w' 0"
      by (auto simp: fetched_def)
    then show ?thesis ..
  qed
next
  case (4 c resource item items w)
  then have "fetched (InList (item # items)) w res w' 0" by (auto simp: fetched_def)
  then show ?case ..
next
  case (5 c resource w)
  then have "fetched (InList []) w res w' 0" by (auto simp: fetched_def)
  then show ?case ..
next
  case (6 c resource w)
  then have "fetched AfterSingle w res w' 0" by (auto simp: fetched_def)
  then show ?case ..
qed

text \<open>
  C8. \<^verbatim>\<open>get_first\<close> returns the first item that the full iteration yields; when the
  iteration yields nothing it returns absence if the iteration ends without an error, and
  raises the iteration's error otherwise. It consumes \<open>n\<close> responses, of which all but the
  last are skipped pages (successful envelopes with no item and a \<^verbatim>\<open>next\<close> to follow), and
  issues \<open>n\<close> requests (one more when the transport fails for want of a response).
\<close>

theorem get_first_short_circuit:
  assumes "drain c resource (iter_resource resource ps) w = ((items, err), w_all)"
    and "get_first c resource ps w = (res, w1)"
  shows "res = (case items of
                  item # others \<Rightarrow> Inr item
                | [] \<Rightarrow> (case err of None \<Rightarrow> Inr JNull | Some e \<Rightarrow> Inl e))
       \<and> (\<exists>n \<le> length (queue w).
             queue w1 = drop n (queue w)
             \<and> (\<forall>i. Suc i < n \<longrightarrow> skipped_page (queue w ! i))
             \<and> length (log w1) =
                 length (log w) + n + (if res = Inl TransportError then 1 else 0))"
proof -
  obtain gr gw where gn: "gen_next c resource (iter_resource resource ps) w = (gr, gw)"
    by force
  from gen_next_fetched [OF gn] obtain n where
    n: "fetched (iter_resource resource ps) w gr gw n" ..
  from assms(2) gn have w1: "w1 = gw" and tr: "(res = Inl TransportError) = (gr = Raise TransportError)"
    by (auto simp: get_first_def split: resume.splits)
  have first: "res = (case items of
                  item # others \<Rightarrow> Inr item
                | [] \<Rightarrow> (case err of None \<Rightarrow> Inr JNull | Some e \<Rightarrow> Inl e))"
    using assms gn
    by (auto simp: get_first_def drain.simps [of c resource "iter_resource resource ps" w]
        split: resume.splits prod.splits)
  from n w1 tr have "n \<le> length (queue w) \<and> queue w1 = drop n (queue w)
             \<and> (\<forall>i. Suc i < n \<longrightarrow> skipped_page (queue w ! i))
             \<and> length (log w1) =
                 length (log w) + n + (if res = Inl TransportError then 1 else 0)"
    by (simp add: fetched_def)
  with first show ?thesis by blast
qed

theorem get_first_short_circuit_witness:
  "(Inr (JDict [(''id'', JInt 1)]) :: error + json) =
     (case [JDict [(''id'', JInt 1)], JDict [(''id'', JInt 2)], JDict [(''id'', JInt 3)]] of
        item # others \<Rightarrow> Inr item
      | [] \<Rightarrow> (case None of None \<Rightarrow> Inr JNull | Some e \<Rightarrow> Inl e))
   \<and> (\<exists>n \<le> length (queue \<lparr>queue = [page0, page1, page2], log = []\<rparr>).
         queue \<lparr>queue = [page2],
                log = [build_request client0 ''GET'' ''dcim/devices/'' (Some []),
                       build_request client0 ''GET'' ''/dcim/devices/?offset=0'' None]\<rparr>
           = drop n (queue \<lparr>queue = [page0, page1, page2], log = []\<rparr>)
         \<and> (\<forall>i. Suc i < n \<longrightarrow>
                skipped_page (queue \<lparr>queue = [page0, page1, page2], log = []\<rparr> ! i))
         \<and> length (log \<lparr>queue = [page2],
                log = [build_request client0 ''GET'' ''dcim/devices/'' (Some []),
                       build_request client0 ''GET'' ''/dcim/devices/?offset=0'' None]\<rparr>) =
             length (log \<lparr>queue = [page0, page1, page2], log = []\<rparr>) + n
               + (if Inr (JDict [(''id'', JInt 1)]) = Inl TransportError then 1 else 0))"
proof -
  have d: "drain client0 ''dcim/devices/'' (iter_resource ''dcim/devices/'' None)
     \<lparr>queue = [page0, page1, page2], log = []\<rparr> =
     (([JDict [(''id'', JInt 1)], JDict [(''id'', JInt 2)], JDict [(''id'', JInt 3)]], None),
      \<lparr>queue = [],
       log = [build_request client0 ''GET'' ''dcim/devices/'' (Some []),
              build_request client0 ''GET'' ''/dcim/devices/?offset=0'' None,
              build_request client0 ''GET''
                ''https://netbox.example.com/api/dcim/devices/?offset=2'' None]\<rparr>)"
    using drain_pages
      [of "[page0, page1]" page2 "\<lparr>queue = [page0, page1, page2], log = []\<rparr>" "[]"
        JNull "''dcim/devices/''" "''dcim/devices/''" client0 "Some []"]
    by (simp add: page0_def page1_def page2_def is_page_def is_cursor_def page_next_def
      page_results_def ok_def is_envelope_def is_dict_def is_list_def the_dict_def the_list_def
      dict_get_def the_str_def iter_resource_def py_or_def)
  have g: "get_first client0 ''dcim/devices/'' None \<lparr>queue = [page0, page1, page2], log = []\<rparr>
     = (Inr (JDict [(''id'', JInt 1)]),
        \<lparr>queue = [page2],
         log = [build_request client0 ''GET'' ''dcim/devices/'' (Some []),
                build_request client0 ''GET'' ''/dcim/devices/?offset=0'' None]\<rparr>)"
    by (simp add: get_first_def iter_resource_def request_def session_request_def py_or_def
        page0_def page1_def ok_def is_envelope_def is_dict_def is_list_def the_dict_def
        the_list_def dict_get_def dict_get_default_def)
  show ?thesis
    by (rule get_first_short_circuit [OF d g])
qed

section \<open>Event time\<close>




section \<open>Filter parameters\<close>

lemma update_fresh:
  "k \<notin> fst ` set al \<Longrightarrow> AList.update k v al = al @ [(k, v)]"
  by (induction al) auto

lemma str_items_foldl:
  "distinct (map fst d) \<Longrightarrow> fst ` set acc \<inter> fst ` set d = {} \<Longrightarrow>
   foldl (\<lambda>acc (k, v). AList.update (py_str (JStr k)) (py_str v) acc) acc d
     = acc @ map (\<lambda>(k, v). (k, py_str v)) d"
proof (induction d arbitrary: acc)
  case Nil
  show ?case by simp
next
  case (Cons kv d)
  obtain k v where kv: "kv = (k, v)" by (cases kv)
  from Cons.prems kv have fresh: "k \<notin> fst ` set acc" by auto
  have "foldl (\<lambda>acc (k, v). AList.update (py_str (JStr k)) (py_str v) acc) acc (kv # d)
      = foldl (\<lambda>acc (k, v). AList.update (py_str (JStr k)) (py_str v) acc)
          (acc @ [(k, py_str v)]) d"
    by (simp add: kv py_str_def update_fresh [OF fresh])
  also have "\<dots> = (acc @ [(k, py_str v)]) @ map (\<lambda>(k, v). (k, py_str v)) d"
    by (rule Cons.IH) (use Cons.prems kv in auto)
  finally show ?case by (simp add: kv)
qed

lemma str_items_distinct:
  "distinct (map fst d) \<Longrightarrow> str_items d = map (\<lambda>(k, v). (k, py_str v)) d"
  using str_items_foldl [of d "[]"] by (simp add: str_items_def)

lemma json_loads_nonempty: "json_loads scan s = Some v \<Longrightarrow> s \<noteq> []"
  by (auto simp: json_loads_def)

text \<open>
  C10, as the code has it. Both parsers turn a JSON object into the mapping from each key to
  \<^verbatim>\<open>str\<close> of its value: a string stays itself, and numbers, booleans and \<^verbatim>\<open>null\<close> become their
  Python print forms. A missing or empty configuration gives the empty mapping in both; a
  configuration of whitespace only gives the empty mapping in \<^verbatim>\<open>_parse_json\<close>, which trims
  the text first.
\<close>

theorem filter_parsing:
  "(json_loads scan (py_strip v) = Some (JDict d) \<longrightarrow> distinct (map fst d) \<longrightarrow>
      parse_json scan (Some v) = Inr (map (\<lambda>(k, x). (k, py_str x)) d))
   \<and> (json_loads scan q = Some (JDict d) \<longrightarrow> distinct (map fst d) \<longrightarrow>
      base_filters scan (Some q) = Inr (map (\<lambda>(k, x). (k, py_str x)) d))
   \<and> py_str (JStr s) = s \<and> py_str (JInt 50) = ''50'' \<and> py_str (JBool True) = ''True''
   \<and> py_str (JBool False) = ''False'' \<and> py_str JNull = ''None''
   \<and> parse_json scan None = Inr [] \<and> (py_strip v = [] \<longrightarrow> parse_json scan (Some v) = Inr [])
   \<and> base_filters scan None = Inr [] \<and> base_filters scan (Some []) = Inr []"
proof -
  have a: "parse_json scan (Some v) = Inr (map (\<lambda>(k, x). (k, py_str x)) d)"
    if "json_loads scan (py_strip v) = Some (JDict d)" "distinct (map fst d)"
  proof -
    from json_loads_nonempty [OF that(1)] have "py_strip v \<noteq> []" .
    moreover from this have "v \<noteq> []" by (auto simp: py_strip_def)
    ultimately show ?thesis
      using that by (simp add: parse_json_def is_dict_def the_dict_def str_items_distinct)
  qed
  have b: "base_filters scan (Some q) = Inr (map (\<lambda>(k, x). (k, py_str x)) d)"
    if "json_loads scan q = Some (JDict d)" "distinct (map fst d)"
    using that json_loads_nonempty [OF that(1)]
    by (simp add: base_filters_def is_dict_def the_dict_def str_items_distinct)
  have c: "py_str (JInt 50) = ''50''"
    by (simp add: py_str_def show_int_def show_nat.simps)
  show ?thesis
    using a b c by (simp add: py_str_def parse_json_def base_filters_def)
qed

theorem filter_parsing_witness:
  "parse_json scan0 (Some (''  '' @ query0 @ '' ''))
     = Inr [(''site'', ''nyc''), (''limit'', ''50''), (''tag'', ''None'')]
   \<and> base_filters scan0 (Some query0)
     = Inr [(''site'', ''nyc''), (''limit'', ''50''), (''tag'', ''None'')]
   \<and> parse_json scan0 (Some ''   '') = Inr []"
  using
    filter_parsing [of scan0 "''  '' @ query0 @ '' ''"
        "[(''site'', JStr ''nyc''), (''limit'', JInt 50), (''tag'', JNull)]" query0]
    filter_parsing [of scan0 "''   ''"]
  by (simp add: json_loads_def json_ws_def scan0_def query0_def py_strip_def py_isspace_def
      py_str_def show_int_def show_nat.simps)

text \<open>
  C10, as stated, fails for \<^verbatim>\<open>_base_filters\<close>: it does not trim, so a configuration of two
  spaces goes to \<^verbatim>\<open>json.loads\<close>, which finds no value, and the command raises \<^verbatim>\<open>ValueError\<close>;
  \<^verbatim>\<open>_parse_json\<close> gives the empty mapping on the same text. This holds whatever the scanner.
\<close>

theorem base_filters_blank_counterexample:
  "\<forall>scan. base_filters scan (Some ''  '') = Inl (ValueError ''Query filters must be a JSON object'')
          \<and> parse_json scan (Some ''  '') = Inr []"
  by (simp add: base_filters_def parse_json_def json_loads_def json_ws_def py_strip_def
      py_isspace_def)

section \<open>Enrichment\<close>

lemma dict_item_update: "dict_item (AList.update k v al) k = Inr v"
  by (simp add: dict_item_def update_conv')

lemma stream_step_payload:
  assumes "py_truthy (dict_get record (opt_match_field cmd))"
    and "map_of cache (py_str (dict_get record (opt_match_field cmd))) = Some payload
         \<or> (py_str (dict_get record (opt_match_field cmd)) \<notin> fst ` set cache
            \<and> fst (get_first client (opt_resource cmd)
                      (Some (AList.update (opt_netbox_field cmd)
                               (py_str (dict_get record (opt_match_field cmd))) filters)) w)
                = Inr payload)"
  shows "fst (stream_step client cmd filters field_list cache record w)
           = finish field_list payload record"
  using assms(2)
proof
  assume hit: "map_of cache (py_str (dict_get record (opt_match_field cmd))) = Some payload"
  then have "py_str (dict_get record (opt_match_field cmd)) \<in> fst ` set cache"
    by (metis domI dom_map_of_conv_image_fst)
  with hit assms(1) show ?thesis
    by (simp add: stream_step_def Let_def dict_item_def)
next
  assume miss: "py_str (dict_get record (opt_match_field cmd)) \<notin> fst ` set cache
            \<and> fst (get_first client (opt_resource cmd)
                      (Some (AList.update (opt_netbox_field cmd)
                               (py_str (dict_get record (opt_match_field cmd))) filters)) w)
                = Inr payload"
  then obtain w' where "get_first client (opt_resource cmd)
                      (Some (AList.update (opt_netbox_field cmd)
                               (py_str (dict_get record (opt_match_field cmd))) filters)) w
                = (Inr payload, w')"
    by (metis fst_conv surj_pair)
  with miss assms(1) show ?thesis
    by (simp add: stream_step_def Let_def dict_item_update)
qed

lemma get_first_found0:
  "get_first client0 ''dcim/devices'' (Some [(''name'', ''sw1'')]) \<lparr>queue = [found0], log = []\<rparr>
     = (Inr device0,
        \<lparr>queue = [], log = [build_request client0 ''GET'' ''dcim/devices''
                               (Some [(''name'', ''sw1'')])]\<rparr>)"
  by (simp add: get_first_def iter_resource_def request_def session_request_def py_or_def
      found0_def ok_def is_envelope_def is_dict_def the_dict_def dict_get_default_def)

lemma get_first_found_empty0:
  "get_first client0 ''dcim/devices'' (Some [(''name'', ''sw1'')])
       \<lparr>queue = [found_empty0], log = []\<rparr>
     = (Inr (JDict []),
        \<lparr>queue = [], log = [build_request client0 ''GET'' ''dcim/devices''
                               (Some [(''name'', ''sw1'')])]\<rparr>)"
  by (simp add: get_first_def iter_resource_def request_def session_request_def py_or_def
      found_empty0_def ok_def is_envelope_def is_dict_def the_dict_def dict_get_default_def)

text \<open>
  C7, as the code has it. With no field list, a record whose match value is truthy and whose
  lookup result (from the cache, or fetched by \<^verbatim>\<open>get_first\<close> on a miss) is truthy, that is
  present and not empty, is yielded with the key \<^verbatim>\<open>netbox\<close> set to the result serialised
  by \<^verbatim>\<open>json.dumps(..., ensure_ascii=False)\<close>, unless the record has the key already: then it is
  yielded as it came. For the API record of the specification and the input with
  \<^verbatim>\<open>host\<close> alone, the text written is the one the specification gives.
\<close>

theorem stream_default_field:
  assumes "py_truthy (dict_get record (opt_match_field cmd))"
    and "map_of cache (py_str (dict_get record (opt_match_field cmd))) = Some payload
         \<or> (py_str (dict_get record (opt_match_field cmd)) \<notin> fst ` set cache
            \<and> fst (get_first client (opt_resource cmd)
                      (Some (AList.update (opt_netbox_field cmd)
                               (py_str (dict_get record (opt_match_field cmd))) filters)) w)
                = Inr payload)"
    and "py_truthy payload"
  shows \<open>fst (stream_step client cmd filters [] cache record w)
           = Inr (if ''netbox'' \<in> fst ` set record then record
                  else record @ [(''netbox'', JStr (json_dumps False payload))])
         \<and> json_dumps False
             (JDict [(''name'', JStr ''sw1''), (''site'', JStr ''nyc''), (''role'', JStr ''core'')])
           = ''{"name": "sw1", "site": "nyc", "role": "core"}''\<close>
  using stream_step_payload [OF assms(1,2), of "[]"] assms(3)
  by (simp add: finish_def enrich_def setdefault_def json_dumps_str_def json_escape_char_def)

theorem stream_default_field_witness:
  \<open>fst (stream_step client0 cmd0 [] [] [] [(''host'', JStr ''sw1'')]
          \<lparr>queue = [found0], log = []\<rparr>)
     = Inr [(''host'', JStr ''sw1''),
            (''netbox'', JStr ''{"name": "sw1", "site": "nyc", "role": "core"}'')]
   \<and> fst (stream_step client0 cmd0 [] [] [(''sw1'', device0)]
            [(''host'', JStr ''sw1''), (''netbox'', JStr ''kept'')] \<lparr>queue = [], log = []\<rparr>)
     = Inr [(''host'', JStr ''sw1''), (''netbox'', JStr ''kept'')]\<close>
  using
    stream_default_field
      [of "[(''host'', JStr ''sw1'')]" cmd0 "[]" device0 client0 "[]"
          "\<lparr>queue = [found0], log = []\<rparr>"]
    stream_default_field
      [of "[(''host'', JStr ''sw1''), (''netbox'', JStr ''kept'')]" cmd0 "[(''sw1'', device0)]"
          device0 client0 "[]" "\<lparr>queue = [], log = []\<rparr>"]
  by (simp add: cmd0_def dict_get_def py_str_def get_first_found0 device0_def
      json_dumps_str_def json_escape_char_def)

text \<open>
  C7, as stated, fails for a lookup result that is present and empty: when the API answers
  with the record \<^verbatim>\<open>{}\<close>, \<^verbatim>\<open>get_first\<close> returns it, and the record is yielded without the key
  \<^verbatim>\<open>netbox\<close>, although the key was not on the record and the serialised result would be \<^verbatim>\<open>{}\<close>.
\<close>

theorem stream_default_field_empty_counterexample:
  "fst (get_first client0 ''dcim/devices'' (Some [(''name'', ''sw1'')])
          \<lparr>queue = [found_empty0], log = []\<rparr>) = Inr (JDict [])
   \<and> fst (stream_step client0 cmd0 [] [] [] [(''host'', JStr ''sw1'')]
            \<lparr>queue = [found_empty0], log = []\<rparr>)
       = Inr [(''host'', JStr ''sw1'')]
   \<and> [(''host'', JStr ''sw1'')]
       \<noteq> [(''host'', JStr ''sw1''), (''netbox'', JStr (json_dumps False (JDict [])))]"
  by (simp add: stream_step_def Let_def cmd0_def dict_get_def py_str_def get_first_found_empty0
      dict_item_def finish_def)

text \<open>
  C9. When the lookup result is the empty mapping the record is yielded unchanged, as it is
  when the result is absent, whatever the field list.
\<close>

theorem stream_empty_payload:
  assumes "py_truthy (dict_get record (opt_match_field cmd))"
    and "map_of cache (py_str (dict_get record (opt_match_field cmd))) = Some payload
         \<or> (py_str (dict_get record (opt_match_field cmd)) \<notin> fst ` set cache
            \<and> fst (get_first client (opt_resource cmd)
                      (Some (AList.update (opt_netbox_field cmd)
                               (py_str (dict_get record (opt_match_field cmd))) filters)) w)
                = Inr payload)"
    and "payload = JDict [] \<or> payload = JNull"
  shows "fst (stream_step client cmd filters field_list cache record w) = Inr record"
  using stream_step_payload [OF assms(1,2), of field_list] assms(3)
  by (auto simp: finish_def)

theorem stream_empty_payload_witness:
  "fst (stream_step client0 cmd0 [] [''site'', ''role''] [] [(''host'', JStr ''sw1'')]
          \<lparr>queue = [found_empty0], log = []\<rparr>)
     = Inr [(''host'', JStr ''sw1'')]
   \<and> fst (stream_step client0 cmd0 [] [] [(''sw1'', JNull)] [(''host'', JStr ''sw1'')]
          \<lparr>queue = [], log = []\<rparr>)
     = Inr [(''host'', JStr ''sw1'')]"
  using
    stream_empty_payload
      [of "[(''host'', JStr ''sw1'')]" cmd0 "[]" "JDict []" client0 "[]"
          "\<lparr>queue = [found_empty0], log = []\<rparr>" "[''site'', ''role'']"]
    stream_empty_payload
      [of "[(''host'', JStr ''sw1'')]" cmd0 "[(''sw1'', JNull)]" JNull client0 "[]"
          "\<lparr>queue = [], log = []\<rparr>" "[]"]
  by (simp add: cmd0_def dict_get_def py_str_def get_first_found_empty0)

section \<open>The enrichment cache\<close>

lemma lookups_append: "lookups (xs @ ys) = lookups xs @ lookups ys"
  by (induction xs) (auto split: option.splits)

lemma logged_refl: "first_params g = [] \<Longrightarrow> logged g w w"
  by (simp add: logged_def)

lemma request_log:
  assumes "request c m path ps w = (res, w1)"
  shows "(w1 = w \<and> (\<forall>p. path \<noteq> JStr p))
       \<or> (\<exists>p. path = JStr p \<and> log w1 = log w @ [build_request c m p ps])"
  using assms
  by (cases path; cases "queue w")
     (auto simp: request_def session_request_def split: if_splits)

lemma logged_request:
  assumes "request c ''GET'' (py_or nu (JStr resource)) (if \<not> py_truthy nu then cp else None) w
             = (res, w1)"
  shows "logged (LoopHead nu cp) w w1"
proof -
  from request_log [OF assms] show ?thesis
  proof
    assume "w1 = w \<and> (\<forall>p. py_or nu (JStr resource) \<noteq> JStr p)"
    then show ?thesis by (auto simp: logged_def py_or_def split: if_splits)
  next
    assume "\<exists>p. py_or nu (JStr resource) = JStr p
               \<and> log w1 = log w @ [build_request c ''GET'' p (if \<not> py_truthy nu then cp else None)]"
    then show ?thesis
      by (auto simp: logged_def build_request_def split: option.splits)
  qed
qed

lemma logged_trans:
  "logged g w w1 \<Longrightarrow> logged g1 w1 w' \<Longrightarrow> first_params g1 = [] \<Longrightarrow> logged g w w'"
  by (auto simp: logged_def lookups_append)

lemma gen_next_logged:
  "gen_next c r g w = (res, w') \<Longrightarrow> logged g w w'"
proof (induction c r g w arbitrary: res w' rule: gen_next.induct)
  case (1 c resource next_url current_params w)
  let ?g = "LoopHead next_url current_params"
  obtain rr w1 where req:
    "request c ''GET'' (py_or next_url (JStr resource))
       (if \<not> py_truthy next_url then current_params else None) w = (rr, w1)"
    by force
  note l1 = logged_request [OF req]
  show ?case
  proof (cases rr)
    case (Inl e)
    with req "1.prems" have "w' = w1" by simp
    with l1 show ?thesis by simp
  next
    case (Inr resp)
    show ?thesis
    proof (cases "json_body resp")
      case None
      with req Inr "1.prems" have "w' = w1" by simp
      with l1 show ?thesis by simp
    next
      case (Some data)
      show ?thesis
      proof (cases "is_envelope data")
        case True
        show ?thesis
        proof (cases "py_iter (dict_get_default (the_dict data) ''results'' (JList []))")
          case (Inl e)
          with req Inr Some True "1.prems" have "w' = w1" by simp
          with l1 show ?thesis by simp
        next
          case inr: (Inr items)
          from req Inr Some True inr "1.prems"
          have g: "gen_next c resource (InResults items data) w1 = (res, w')" by simp
          from "1.IH"(1) [OF req [symmetric] Inr Some True inr g]
          have "logged (InResults items data) w1 w'" .
          with l1 show ?thesis by (rule logged_trans) simp
        qed
      next
        case False
        show ?thesis
        proof (cases "is_list data")
          case True
          from req Inr Some False True "1.prems"
          have g: "gen_next c resource (InList (the_list data)) w1 = (res, w')" by simp
          from "1.IH"(2) [OF req [symmetric] Inr Some False True g]
          have "logged (InList (the_list data)) w1 w'" .
          with l1 show ?thesis by (rule logged_trans) simp
        next
          case nl: False
          with req Inr Some False "1.prems" have "w' = w1"
            by (auto split: if_splits)
          with l1 show ?thesis by simp
        qed
      qed
    qed
  qed
next
  case (2 c resource item items data w)
  then show ?case by (auto intro: logged_refl)
next
  case (3 c resource data w)
  show ?case
  proof (cases "py_truthy (dict_get (the_dict data) ''next'')")
    case True
    with "3.prems" have
      "gen_next c resource (LoopHead (dict_get (the_dict data) ''next'') None) w = (res, w')"
      by simp
    from "3.IH" [OF refl _ this] True
    have "logged (LoopHead (dict_get (the_dict data) ''next'') None) w w'" by simp
    with True show ?thesis by (simp add: logged_def)
  next
    case False
    with "3.prems" show ?thesis by (auto intro: logged_refl)
  qed
next
  case (4 c resource item items w)
  then show ?case by (auto intro: logged_refl)
next
  case (5 c resource w)
  then show ?case by (auto intro: logged_refl)
next
  case (6 c resource w)
  then show ?case by (auto intro: logged_refl)
qed

lemma get_first_lookups:
  assumes "get_first c resource (Some p) w = (res, w')"
  shows "\<exists>rest. log w' = log w @ rest \<and> lookups rest = [p]"
proof -
  obtain gr gw where gn: "gen_next c resource (iter_resource resource (Some p)) w = (gr, gw)"
    by force
  with assms have "w' = gw" by (auto simp: get_first_def split: resume.splits)
  with gen_next_logged [OF gn] show ?thesis
    by (simp add: logged_def iter_resource_def)
qed

lemma map_of_fresh_append:
  "k \<notin> fst ` set al \<Longrightarrow> map_of (al @ [(k, v)]) k = Some v"
  by (induction al) auto

lemma map_of_append_keep:
  "map_of al k = Some v \<Longrightarrow> map_of (al @ bl) k = Some v"
  by (simp add: map_add_Some_iff)

lemma update_key_inj:
  "AList.update nf k bf = AList.update nf k' bf \<Longrightarrow> k = k'"
proof -
  assume "AList.update nf k bf = AList.update nf k' bf"
  then have "map_of (AList.update nf k bf) nf = map_of (AList.update nf k' bf) nf" by simp
  then show "k = k'" by (simp add: update_conv')
qed

lemma stream_step_effect:
  assumes "stream_step client cmd filters field_list cache rcd w = (res, cache1, w1)"
  shows "\<exists>new rest extra.
           cache1 = cache @ new \<and> log w1 = log w @ rest
           \<and> lookups rest
               = map (\<lambda>k. AList.update (opt_netbox_field cmd) k filters) (map fst new) @ extra
           \<and> distinct (map fst new) \<and> fst ` set new \<inter> fst ` set cache = {}
           \<and> (extra = []
               \<or> (\<exists>k. extra = [AList.update (opt_netbox_field cmd) k filters]
                       \<and> k \<notin> fst ` set cache1))
           \<and> (\<forall>out. res = Inr out \<longrightarrow>
                 extra = []
                 \<and> (py_truthy (dict_get rcd (opt_match_field cmd)) \<longrightarrow>
                      (\<exists>payload. map_of cache1 (py_str (dict_get rcd (opt_match_field cmd)))
                                    = Some payload
                                  \<and> finish field_list payload rcd = Inr out)))"
proof (cases "py_truthy (dict_get rcd (opt_match_field cmd))")
  case False
  with assms have "cache1 = cache" "w1 = w" by (simp_all add: stream_step_def)
  with False show ?thesis by simp
next
  case True
  let ?key = "py_str (dict_get rcd (opt_match_field cmd))"
  let ?P = "\<lambda>k. AList.update (opt_netbox_field cmd) k filters"
  show ?thesis
  proof (cases "?key \<in> fst ` set cache")
    case hit: True
    then obtain payload where p: "map_of cache ?key = Some payload"
      by (metis domD dom_map_of_conv_image_fst)
    with assms True hit have "cache1 = cache" "w1 = w" "res = finish field_list payload rcd"
      by (simp_all add: stream_step_def Let_def dict_item_def)
    with p True show ?thesis by simp
  next
    case miss: False
    obtain r w' where gf: "get_first client (opt_resource cmd) (Some (?P ?key)) w = (r, w')"
      by force
    from get_first_lookups [OF gf] obtain rest where
      rest: "log w' = log w @ rest" "lookups rest = [?P ?key]"
      by blast
    show ?thesis
    proof (cases r)
      case (Inl e)
      with assms True miss gf have "cache1 = cache" "w1 = w'" "res = Inl e"
        by (simp_all add: stream_step_def Let_def)
      with rest miss show ?thesis
        by (intro exI [of _ "[]"] exI [of _ rest] exI [of _ "[?P ?key]"]) auto
    next
      case (Inr item)
      with True miss gf
      have "stream_step client cmd filters field_list cache rcd w
              = (finish field_list item rcd, AList.update ?key item cache, w')"
        by (simp add: stream_step_def Let_def dict_item_update)
      with assms
      have c1: "cache1 = cache @ [(?key, item)]" and w1: "w1 = w'"
        and out: "res = finish field_list item rcd"
        by (simp_all add: update_fresh [OF miss])
      have "map_of cache1 ?key = Some item"
        unfolding c1 by (rule map_of_fresh_append [OF miss])
      with c1 w1 out rest miss show ?thesis
        by (intro exI [of _ "[(?key, item)]"] exI [of _ rest] exI [of _ "[]"]) simp
    qed
  qed
qed

lemma stream_loop_effect:
  assumes "stream_loop client cmd filters field_list cache records w
             = ((outs, err, cache_end), w_end)"
    and "distinct (map fst cache)"
  shows "\<exists>new rest extra.
           cache_end = cache @ new \<and> distinct (map fst cache_end)
           \<and> log w_end = log w @ rest
           \<and> lookups rest
               = map (\<lambda>k. AList.update (opt_netbox_field cmd) k filters) (map fst new) @ extra
           \<and> (extra = []
               \<or> (\<exists>k. extra = [AList.update (opt_netbox_field cmd) k filters]
                       \<and> k \<notin> fst ` set cache_end))
           \<and> length outs \<le> length records
           \<and> (\<forall>n < length outs.
                 py_truthy (dict_get (records ! n) (opt_match_field cmd)) \<longrightarrow>
                 (\<exists>payload. map_of cache_end (py_str (dict_get (records ! n) (opt_match_field cmd)))
                               = Some payload
                             \<and> finish field_list payload (records ! n) = Inr (outs ! n)))"
  using assms
proof (induction records arbitrary: cache w outs err cache_end w_end)
  case Nil
  then show ?case by simp
next
  case (Cons rcd records)
  let ?P = "\<lambda>k. AList.update (opt_netbox_field cmd) k filters"
  obtain r1 cache1 w1 where step:
    "stream_step client cmd filters field_list cache rcd w = (r1, cache1, w1)"
    by (metis surj_pair)
  from stream_step_effect [OF step] obtain new1 rest1 extra1 where s:
    "cache1 = cache @ new1" "log w1 = log w @ rest1"
    "lookups rest1 = map ?P (map fst new1) @ extra1"
    "distinct (map fst new1)" "fst ` set new1 \<inter> fst ` set cache = {}"
    "extra1 = [] \<or> (\<exists>k. extra1 = [?P k] \<and> k \<notin> fst ` set cache1)"
    "\<forall>out. r1 = Inr out \<longrightarrow>
       extra1 = []
       \<and> (py_truthy (dict_get rcd (opt_match_field cmd)) \<longrightarrow>
            (\<exists>payload. map_of cache1 (py_str (dict_get rcd (opt_match_field cmd))) = Some payload
                        \<and> finish field_list payload rcd = Inr out))"
    by blast
  from s(1,4,5) Cons.prems(2) have d1: "distinct (map fst cache1)" by auto
  show ?case
  proof (cases r1)
    case (Inl e)
    with Cons.prems(1) step have "outs = []" "cache_end = cache1" "w_end = w1" by simp_all
    with s d1 show ?thesis
      by (intro exI [of _ new1] exI [of _ rest1] exI [of _ extra1]) simp
  next
    case (Inr out)
    obtain outs' err' cache' w'' where loop:
      "stream_loop client cmd filters field_list cache1 records w1 = ((outs', err', cache'), w'')"
      by (metis surj_pair)
    from Cons.prems(1) step Inr loop
    have eqs: "outs = out # outs'" "cache_end = cache'" "w_end = w''"
      by simp_all
    from s(7) Inr have e1: "extra1 = []"
      and first: "py_truthy (dict_get rcd (opt_match_field cmd)) \<longrightarrow>
            (\<exists>payload. map_of cache1 (py_str (dict_get rcd (opt_match_field cmd))) = Some payload
                        \<and> finish field_list payload rcd = Inr out)"
      by simp_all
    from Cons.IH [OF loop d1] obtain new2 rest2 extra2 where l:
      "cache' = cache1 @ new2" "distinct (map fst cache')" "log w'' = log w1 @ rest2"
      "lookups rest2 = map ?P (map fst new2) @ extra2"
      "extra2 = [] \<or> (\<exists>k. extra2 = [?P k] \<and> k \<notin> fst ` set cache')"
      "length outs' \<le> length records"
      "\<forall>n < length outs'.
          py_truthy (dict_get (records ! n) (opt_match_field cmd)) \<longrightarrow>
          (\<exists>payload. map_of cache' (py_str (dict_get (records ! n) (opt_match_field cmd)))
                        = Some payload
                      \<and> finish field_list payload (records ! n) = Inr (outs' ! n))"
      by blast
    have all: "\<exists>payload. map_of cache_end
                            (py_str (dict_get ((rcd # records) ! n) (opt_match_field cmd)))
                          = Some payload
                 \<and> finish field_list payload ((rcd # records) ! n) = Inr (outs ! n)"
      if "n < length outs"
        "py_truthy (dict_get ((rcd # records) ! n) (opt_match_field cmd))" for n
    proof (cases n)
      case 0
      with that first obtain payload where
        "map_of cache1 (py_str (dict_get rcd (opt_match_field cmd))) = Some payload"
        "finish field_list payload rcd = Inr out"
        by auto
      with 0 eqs l(1) show ?thesis by (auto simp: map_of_append_keep)
    next
      case (Suc m)
      with that l(7) eqs show ?thesis by auto
    qed
    show ?thesis
      using eqs s(1,2,3) e1 l(1,2,3,4,5,6) all
      by (intro exI [of _ "new1 @ new2"] exI [of _ "rest1 @ rest2"] exI [of _ extra2])
         (simp add: lookups_append)
  qed
qed

lemma count_key:
  assumes "distinct ks" and "k \<in> set ks"
    and "extra = [] \<or> (\<exists>k'. extra = [AList.update nf k' bf] \<and> k' \<notin> set ks)"
  shows "length (filter (\<lambda>p. p = AList.update nf k bf)
                   (map (\<lambda>k. AList.update nf k bf) ks @ extra)) = 1"
proof -
  have "filter (\<lambda>p. p = AList.update nf k bf) (map (\<lambda>k. AList.update nf k bf) ks)
          = map (\<lambda>k. AList.update nf k bf) (filter (\<lambda>k'. k' = k) ks)"
    by (induction ks) (auto dest: update_key_inj)
  moreover from assms(1,2) have "length (filter (\<lambda>k'. k' = k) ks) = 1"
    by (induction ks) (auto simp: filter_empty_conv)
  moreover from assms(2,3) have "filter (\<lambda>p. p = AList.update nf k bf) extra = []"
    by (auto dest: update_key_inj)
  ultimately show ?thesis by simp
qed

lemma cmd0_fields:
  "opt_resource cmd0 = ''dcim/devices''" "opt_match_field cmd0 = ''host''"
  "opt_netbox_field cmd0 = ''name''" "opt_fields cmd0 = None" "opt_query cmd0 = None"
  by (simp_all add: cmd0_def)

lemma get_client_cmd0: "get_client int0 cmd0 = Inr client0"
  by (simp add: get_client_def cmd0_def client0_def int0_def py_strip_def py_isspace_def
      py_lower_def py_lower_char_def truthy_tokens_def post_init_def)

lemma get_first_found1:
  "get_first client0 ''dcim/devices'' (Some [(''name'', ''sw2'')]) \<lparr>queue = [found1], log = l\<rparr>
     = (Inr (JDict [(''name'', JStr ''sw2'')]),
        \<lparr>queue = [], log = l @ [build_request client0 ''GET'' ''dcim/devices''
                               (Some [(''name'', ''sw2'')])]\<rparr>)"
  by (simp add: get_first_def iter_resource_def request_def session_request_def py_or_def
      found1_def ok_def is_envelope_def is_dict_def the_dict_def dict_get_default_def)

lemma get_first_found0_then:
  "get_first client0 ''dcim/devices'' (Some [(''name'', ''sw1'')])
       \<lparr>queue = found0 # rest, log = []\<rparr>
     = (Inr device0,
        \<lparr>queue = rest, log = [build_request client0 ''GET'' ''dcim/devices''
                               (Some [(''name'', ''sw1'')])]\<rparr>)"
  by (simp add: get_first_def iter_resource_def request_def session_request_def py_or_def
      found0_def ok_def is_envelope_def is_dict_def the_dict_def dict_get_default_def)

lemma get_first_exhausted:
  "get_first client0 ''dcim/devices'' (Some ps) \<lparr>queue = [], log = l\<rparr>
     = (Inl TransportError,
        \<lparr>queue = [], log = l @ [build_request client0 ''GET'' ''dcim/devices'' (Some ps)]\<rparr>)"
  by (simp add: get_first_def iter_resource_def request_def session_request_def py_or_def)

lemma stream_records0:
  \<open>stream scan0 int0 cmd0 records0 \<lparr>queue = [found0, found1], log = []\<rparr> =
     (([[(''host'', JStr ''sw1''),
         (''netbox'', JStr ''{"name": "sw1", "site": "nyc", "role": "core"}'')],
        [(''host'', JStr ''sw2''), (''netbox'', JStr ''{"name": "sw2"}'')],
        [(''host'', JStr ''sw1''), (''netbox'', JStr ''kept'')]],
       Some TransportError,
       [(''sw1'', device0), (''sw2'', JDict [(''name'', JStr ''sw2'')])]),
      \<lparr>queue = [],
       log = [build_request client0 ''GET'' ''dcim/devices'' (Some [(''name'', ''sw1'')]),
              build_request client0 ''GET'' ''dcim/devices'' (Some [(''name'', ''sw2'')]),
              build_request client0 ''GET'' ''dcim/devices'' (Some [(''name'', ''sw3'')])]\<rparr>)\<close>
  by (simp add: stream_def get_client_cmd0 base_filters_def parse_fields_def records0_def
      stream_step_def Let_def cmd0_fields dict_get_def py_str_def get_first_found0_then
      get_first_found1 get_first_exhausted
      dict_item_def finish_def enrich_def setdefault_def device0_def
      json_dumps_str_def json_escape_char_def)

text \<open>
  C5, as the code has it. Take a run of \<^verbatim>\<open>stream\<close>, whether it ends normally or with an
  exception, and two records that it yielded, whose match values are truthy and have the same
  string form \<open>key\<close>. Then exactly one request with parameters was issued for \<open>key\<close> in the
  whole run (one call of \<^verbatim>\<open>get_first\<close>), both records were finished with one and the same
  payload, the entry of the cache for \<open>key\<close>, and the keys of the cache are distinct. A record
  whose match value is absent or falsy is yielded as it came, and the cache and the world stay
  as they were: no request is issued for it.
\<close>

theorem stream_cache_one_lookup:
  assumes "stream scan to_int cmd records w = ((outs, err, cache_end), w_end)"
    and "base_filters scan (opt_query cmd) = Inr filters"
    and "i < length outs" and "j < length outs"
    and "py_truthy (dict_get (records ! i) (opt_match_field cmd))"
    and "py_truthy (dict_get (records ! j) (opt_match_field cmd))"
    and "py_str (dict_get (records ! i) (opt_match_field cmd)) = key"
    and "py_str (dict_get (records ! j) (opt_match_field cmd)) = key"
  shows "length (filter (\<lambda>p. p = AList.update (opt_netbox_field cmd) key filters)
                   (lookups (drop (length (log w)) (log w_end)))) = 1
       \<and> (\<exists>payload.
             map_of cache_end key = Some payload
             \<and> finish (case parse_fields (opt_fields cmd) of None \<Rightarrow> [] | Some fs \<Rightarrow> fs)
                  payload (records ! i) = Inr (outs ! i)
             \<and> finish (case parse_fields (opt_fields cmd) of None \<Rightarrow> [] | Some fs \<Rightarrow> fs)
                  payload (records ! j) = Inr (outs ! j))
       \<and> distinct (map fst cache_end)
       \<and> (\<forall>client field_list cache rcd w0.
             \<not> py_truthy (dict_get rcd (opt_match_field cmd)) \<longrightarrow>
             stream_step client cmd filters field_list cache rcd w0 = (Inr rcd, cache, w0))"
proof -
  let ?fl = "case parse_fields (opt_fields cmd) of None \<Rightarrow> [] | Some fs \<Rightarrow> fs"
  have "\<exists>client. stream_loop client cmd filters ?fl [] records w
                   = ((outs, err, cache_end), w_end)"
  proof (cases "get_client to_int cmd")
    case (Inl e)
    with assms(1) have "outs = []" by (simp add: stream_def)
    with assms(3) show ?thesis by simp
  next
    case (Inr client)
    with assms(1,2) show ?thesis by (auto simp: stream_def)
  qed
  then obtain client where
    loop: "stream_loop client cmd filters ?fl [] records w = ((outs, err, cache_end), w_end)"
    ..
  have "distinct (map fst ([] :: (string \<times> json) list))" by simp
  from stream_loop_effect [OF loop this] obtain new rest extra where inv0:
    "cache_end = [] @ new" "distinct (map fst cache_end)" "log w_end = log w @ rest"
    "lookups rest
       = map (\<lambda>k. AList.update (opt_netbox_field cmd) k filters) (map fst new) @ extra"
    "extra = [] \<or> (\<exists>k. extra = [AList.update (opt_netbox_field cmd) k filters]
                        \<and> k \<notin> fst ` set cache_end)"
    "length outs \<le> length records"
    "\<forall>n < length outs.
        py_truthy (dict_get (records ! n) (opt_match_field cmd)) \<longrightarrow>
        (\<exists>payload. map_of cache_end (py_str (dict_get (records ! n) (opt_match_field cmd)))
                      = Some payload
                    \<and> finish ?fl payload (records ! n) = Inr (outs ! n))"
    by blast
  from inv0(1) have new: "new = cache_end" by simp
  note inv = inv0(2) inv0(3) inv0(4) [unfolded new] inv0(5) inv0(7)
  from inv0(5) have extra: "extra = [] \<or> (\<exists>k'. extra = [AList.update (opt_netbox_field cmd) k' filters]
                        \<and> k' \<notin> set (map fst cache_end))"
    by simp
  from inv(5) assms(3,5,7) obtain p1 where
    p1: "map_of cache_end key = Some p1" "finish ?fl p1 (records ! i) = Inr (outs ! i)"
    by blast
  from inv(5) assms(4,6,8) obtain p2 where
    p2: "map_of cache_end key = Some p2" "finish ?fl p2 (records ! j) = Inr (outs ! j)"
    by blast
  from p1(1) p2(1) have same: "p2 = p1" by simp
  from p1(1) have "key \<in> set (map fst cache_end)"
    by (metis domI dom_map_of_conv_image_fst set_map)
  from count_key [OF inv(1) this extra]
  have one: "length (filter (\<lambda>p. p = AList.update (opt_netbox_field cmd) key filters)
                   (lookups (drop (length (log w)) (log w_end)))) = 1"
    by (simp add: inv(2,3))
  have falsy: "stream_step client cmd filters field_list cache rcd w0 = (Inr rcd, cache, w0)"
    if "\<not> py_truthy (dict_get rcd (opt_match_field cmd))" for client field_list cache rcd w0
    using that by (simp add: stream_step_def)
  from one p1 p2 same inv(1) falsy show ?thesis by blast
qed

theorem stream_cache_one_lookup_witness:
  \<open>length (filter (\<lambda>p. p = AList.update (opt_netbox_field cmd0) ''sw1'' [])
            (lookups (drop (length (log \<lparr>queue = [found0, found1], log = []\<rparr>))
               (log \<lparr>queue = [],
                     log = [build_request client0 ''GET'' ''dcim/devices''
                              (Some [(''name'', ''sw1'')]),
                            build_request client0 ''GET'' ''dcim/devices''
                              (Some [(''name'', ''sw2'')]),
                            build_request client0 ''GET'' ''dcim/devices''
                              (Some [(''name'', ''sw3'')])]\<rparr>)))) = 1
   \<and> (\<exists>payload.
         map_of [(''sw1'', device0), (''sw2'', JDict [(''name'', JStr ''sw2'')])] ''sw1''
           = Some payload
         \<and> finish (case parse_fields (opt_fields cmd0) of None \<Rightarrow> [] | Some fs \<Rightarrow> fs)
              payload (records0 ! 0)
            = Inr ([[(''host'', JStr ''sw1''),
                     (''netbox'', JStr ''{"name": "sw1", "site": "nyc", "role": "core"}'')],
                    [(''host'', JStr ''sw2''), (''netbox'', JStr ''{"name": "sw2"}'')],
                    [(''host'', JStr ''sw1''), (''netbox'', JStr ''kept'')]] ! 0)
         \<and> finish (case parse_fields (opt_fields cmd0) of None \<Rightarrow> [] | Some fs \<Rightarrow> fs)
              payload (records0 ! 2)
            = Inr ([[(''host'', JStr ''sw1''),
                     (''netbox'', JStr ''{"name": "sw1", "site": "nyc", "role": "core"}'')],
                    [(''host'', JStr ''sw2''), (''netbox'', JStr ''{"name": "sw2"}'')],
                    [(''host'', JStr ''sw1''), (''netbox'', JStr ''kept'')]] ! 2))
   \<and> distinct (map fst [(''sw1'', device0), (''sw2'', JDict [(''name'', JStr ''sw2'')])])
   \<and> stream_step client0 cmd0 [] [''site''] [(''sw1'', device0)] [(''host'', JStr [])]
        \<lparr>queue = [found0], log = []\<rparr>
       = (Inr [(''host'', JStr [])], [(''sw1'', device0)], \<lparr>queue = [found0], log = []\<rparr>)\<close>
proof -
  have bf: "base_filters scan0 (opt_query cmd0) = Inr []"
    by (simp add: base_filters_def cmd0_def)
  have i: "0 < length [[(''host'', JStr ''sw1''),
                     (''netbox'', JStr [CHR ''{'', CHR 0x22, CHR ''n'', CHR ''a'', CHR ''m'', CHR ''e'', CHR 0x22, CHR '':'', CHR '' '', CHR 0x22, CHR ''s'', CHR ''w'', CHR ''1'', CHR 0x22, CHR '','', CHR '' '', CHR 0x22, CHR ''s'', CHR ''i'', CHR ''t'', CHR ''e'', CHR 0x22, CHR '':'', CHR '' '', CHR 0x22, CHR ''n'', CHR ''y'', CHR ''c'', CHR 0x22, CHR '','', CHR '' '', CHR 0x22, CHR ''r'', CHR ''o'', CHR ''l'', CHR ''e'', CHR 0x22, CHR '':'', CHR '' '', CHR 0x22, CHR ''c'', CHR ''o'', CHR ''r'', CHR ''e'', CHR 0x22, CHR ''}''])],
                    [(''host'', JStr ''sw2''), (''netbox'', JStr [CHR ''{'', CHR 0x22, CHR ''n'', CHR ''a'', CHR ''m'', CHR ''e'', CHR 0x22, CHR '':'', CHR '' '', CHR 0x22, CHR ''s'', CHR ''w'', CHR ''2'', CHR 0x22, CHR ''}''])],
                    [(''host'', JStr ''sw1''), (''netbox'', JStr ''kept'')]]"
    by simp
  have j: "2 < length [[(''host'', JStr ''sw1''),
                     (''netbox'', JStr [CHR ''{'', CHR 0x22, CHR ''n'', CHR ''a'', CHR ''m'', CHR ''e'', CHR 0x22, CHR '':'', CHR '' '', CHR 0x22, CHR ''s'', CHR ''w'', CHR ''1'', CHR 0x22, CHR '','', CHR '' '', CHR 0x22, CHR ''s'', CHR ''i'', CHR ''t'', CHR ''e'', CHR 0x22, CHR '':'', CHR '' '', CHR 0x22, CHR ''n'', CHR ''y'', CHR ''c'', CHR 0x22, CHR '','', CHR '' '', CHR 0x22, CHR ''r'', CHR ''o'', CHR ''l'', CHR ''e'', CHR 0x22, CHR '':'', CHR '' '', CHR 0x22, CHR ''c'', CHR ''o'', CHR ''r'', CHR ''e'', CHR 0x22, CHR ''}''])],
                    [(''host'', JStr ''sw2''), (''netbox'', JStr [CHR ''{'', CHR 0x22, CHR ''n'', CHR ''a'', CHR ''m'', CHR ''e'', CHR 0x22, CHR '':'', CHR '' '', CHR 0x22, CHR ''s'', CHR ''w'', CHR ''2'', CHR 0x22, CHR ''}''])],
                    [(''host'', JStr ''sw1''), (''netbox'', JStr ''kept'')]]"
    by simp
  have ti: "py_truthy (dict_get (records0 ! 0) (opt_match_field cmd0))"
    and tj: "py_truthy (dict_get (records0 ! 2) (opt_match_field cmd0))"
    by (simp_all add: records0_def cmd0_def dict_get_def)
  have ki: "py_str (dict_get (records0 ! 0) (opt_match_field cmd0)) = ''sw1''"
    and kj: "py_str (dict_get (records0 ! 2) (opt_match_field cmd0)) = ''sw1''"
    by (simp_all add: records0_def cmd0_def dict_get_def py_str_def)
  note inst = stream_cache_one_lookup [OF stream_records0 bf i j ti tj ki kj]
  from inst have "\<forall>client field_list cache rcd w0.
        \<not> py_truthy (dict_get rcd (opt_match_field cmd0)) \<longrightarrow>
        stream_step client cmd0 [] field_list cache rcd w0 = (Inr rcd, cache, w0)"
    by blast
  then have falsy: "stream_step client0 cmd0 [] [''site''] [(''sw1'', device0)]
        [(''host'', JStr [])] \<lparr>queue = [found0], log = []\<rparr>
       = (Inr [(''host'', JStr [])], [(''sw1'', device0)], \<lparr>queue = [found0], log = []\<rparr>)"
    by (simp add: cmd0_fields dict_get_def)
  from inst falsy show ?thesis by blast
qed

text \<open>
  C5, as stated, fails in two ways. Two records whose match value is the empty string have
  equal string forms, and the run issues no request at all. And when the run ends with an
  exception before it reaches the two records (here the transport fails on the lookup of
  another value), no request is issued for their value and neither record is yielded.
\<close>

theorem stream_lookup_count_counterexample:
  "stream scan0 int0 cmd0 [[(''host'', JStr [])], [(''host'', JStr [])]]
       \<lparr>queue = [found0], log = []\<rparr>
     = (([[(''host'', JStr [])], [(''host'', JStr [])]], None, []),
        \<lparr>queue = [found0], log = []\<rparr>)
   \<and> stream scan0 int0 cmd0
       [[(''host'', JStr ''sw2'')], [(''host'', JStr ''sw1'')], [(''host'', JStr ''sw1'')]]
       \<lparr>queue = [], log = []\<rparr>
     = (([], Some TransportError, []),
        \<lparr>queue = [],
         log = [\<lparr>req_method = ''GET'',
                 req_url = UrlJoin ''https://netbox.example.com/api/'' ''dcim/devices'',
                 req_params = Some [(''name'', ''sw2'')],
                 req_timeout = 60, req_verify = VerifyBool True\<rparr>]\<rparr>)"
proof -
  have "stream scan0 int0 cmd0
       [[(''host'', JStr ''sw2'')], [(''host'', JStr ''sw1'')], [(''host'', JStr ''sw1'')]]
       \<lparr>queue = [], log = []\<rparr>
     = (([], Some TransportError, []),
        \<lparr>queue = [],
         log = [build_request client0 ''GET'' ''dcim/devices'' (Some [(''name'', ''sw2'')])]\<rparr>)"
    by (simp add: stream_def get_client_cmd0 base_filters_def parse_fields_def
        stream_step_def Let_def cmd0_fields dict_get_def py_str_def get_first_exhausted)
  moreover have "stream scan0 int0 cmd0 [[(''host'', JStr [])], [(''host'', JStr [])]]
       \<lparr>queue = [found0], log = []\<rparr>
     = (([[(''host'', JStr [])], [(''host'', JStr [])]], None, []),
        \<lparr>queue = [found0], log = []\<rparr>)"
    by (simp add: stream_def get_client_cmd0 base_filters_def parse_fields_def
        stream_step_def Let_def cmd0_fields dict_get_def)
  ultimately show ?thesis
    by (simp add: build_request_def lstrip_slash_def client0_def)
qed

end
